theory Spec2Isabelle
  imports Complex_Main "HOL-Library.Multiset"
begin

section \<open>Python strings\<close>

text \<open>
  A Python \<open>str\<close> is modelled as a \<open>string\<close>: the list of the bytes of its UTF-8 encoding.
  Equality, concatenation and the substring test are the same on code points and on UTF-8
  bytes. \<open>str.lower\<close> is not: it is Unicode-aware and depends on the context of a letter,
  so the classifier and the cleaner take it as a parameter. \<open>lower_ascii\<close> is what
  \<open>str.lower\<close> does on ASCII text (\<open>A..Z\<close> to \<open>a..z\<close>), the text \<open>ascii_text\<close> accepts;
  only the examples use it.
\<close>

definition ascii_upper :: string where
  "ascii_upper = ''ABCDEFGHIJKLMNOPQRSTUVWXYZ''"

definition ascii_lower :: string where
  "ascii_lower = ''abcdefghijklmnopqrstuvwxyz''"

definition lower_char :: "char \<Rightarrow> char" where
  "lower_char c = (case map_of (zip ascii_upper ascii_lower) c of Some d \<Rightarrow> d | None \<Rightarrow> c)"

definition lower_ascii :: "string \<Rightarrow> string" where
  "lower_ascii s = map lower_char s"


text \<open>\<open>starts_with s k\<close> is \<open>s.startswith(k)\<close>; \<open>py_in k s\<close> is the substring test \<open>k in s\<close>.\<close>

fun starts_with :: "string \<Rightarrow> string \<Rightarrow> bool" where
  "starts_with s [] = True"
| "starts_with [] (k # ks) = False"
| "starts_with (c # s) (k # ks) = (c = k \<and> starts_with s ks)"

fun py_in :: "string \<Rightarrow> string \<Rightarrow> bool" where
  "py_in k [] = (k = [])"
| "py_in k (c # s) = (starts_with (c # s) k \<or> py_in k s)"

text \<open>\<open>str(n)\<close> for a non-negative integer: its decimal digits.\<close>

definition digit_char :: "nat \<Rightarrow> char" where
  "digit_char d = ''0123456789'' ! d"

function str_of_nat :: "nat \<Rightarrow> string" where
  "str_of_nat n = (if n < 10 then [digit_char n] else str_of_nat (n div 10) @ [digit_char (n mod 10)])"
  by pat_completeness auto
termination
  by (relation "measure id") auto

declare str_of_nat.simps [simp del]

text \<open>\<open>sep.join(xs)\<close>.\<close>

fun join :: "string \<Rightarrow> string list \<Rightarrow> string" where
  "join sep [] = []"
| "join sep [x] = x"
| "join sep (x # y # ys) = x @ sep @ join sep (y # ys)"

section \<open>Cells, columns and data frames\<close>

text \<open>
  A cell is the tagged variant of the spec's data model. Floats and integers are both
  \<open>Num\<close>, over the rationals; \<open>Null\<close> is pandas' missing marker (NaN). A column carries its
  label, its dtype and its cells; a frame carries the length of its index beside its
  columns, since a pandas frame keeps its row count when every column is dropped.
\<close>

datatype cell = Null | Num rat | Txt string | Bool bool | Time int

datatype dtype = Object | Numeric | Boolean | Datetime

record column =
  cname :: string
  ctype :: dtype
  cells :: "cell list"

record frame =
  index_len :: nat
  cols :: "column list"

definition names :: "frame \<Rightarrow> string list" where
  "names df = map cname (cols df)"

text \<open>Every column has one cell per index entry.\<close>

definition wf_frame :: "frame \<Rightarrow> bool" where
  "wf_frame df = list_all (\<lambda>c. length (cells c) = index_len df) (cols df)"

datatype py_error =
    KeyError string
  | ValueError string
  | AttributeError string
  | TypeError string
  | LibraryError string

fun str_of_error :: "py_error \<Rightarrow> string" where
  "str_of_error (KeyError m) = m"
| "str_of_error (ValueError m) = m"
| "str_of_error (AttributeError m) = m"
| "str_of_error (TypeError m) = m"
| "str_of_error (LibraryError m) = m"

text \<open>\<open>pd.api.types.is_numeric_dtype\<close> accepts integer, float and boolean columns;
  \<open>select_dtypes(include=[np.number])\<close> accepts integer and float columns only.\<close>

definition is_numeric_dtype :: "column \<Rightarrow> bool" where
  "is_numeric_dtype c = (ctype c = Numeric \<or> ctype c = Boolean)"

definition is_number :: "column \<Rightarrow> bool" where
  "is_number c = (ctype c = Numeric)"

section \<open>Intent classification: the deterministic fallback (llm\_service.py)\<close>

text \<open>
  The intent is the dict the classifier returns. A field is \<open>None\<close> when the key is absent
  (the model-based path may leave keys out; \<open>_execute_intent\<close> reads them with defaults).
\<close>

record structured_intent =
  intent :: "string option"
  columns :: "string list option"
  operation :: "string option"
  filters :: "(string \<times> cell) list option"
  chart_type :: "string option"
  explanation :: "string option"

definition detect_operation :: "string \<Rightarrow> string" where
  "detect_operation query =
    (if py_in ''sum'' query \<or> py_in ''total'' query then ''sum''
     else if py_in ''average'' query \<or> py_in ''mean'' query then ''mean''
     else if py_in ''count'' query then ''count''
     else if py_in ''max'' query \<or> py_in ''maximum'' query then ''max''
     else if py_in ''min'' query \<or> py_in ''minimum'' query then ''min''
     else ''describe'')"

definition detect_intent :: "string \<Rightarrow> string" where
  "detect_intent query_lower =
    (if list_ex (\<lambda>w. py_in w query_lower) [''chart'', ''plot'', ''graph'', ''visualize'']
       then ''visualize''
     else if list_ex (\<lambda>w. py_in w query_lower) [''filter'', ''where'', ''only'']
       then ''filter''
     else if list_ex (\<lambda>w. py_in w query_lower) [''average'', ''sum'', ''total'', ''count'', ''mean'']
       then ''aggregate''
     else if list_ex (\<lambda>w. py_in w query_lower) [''compare'', ''versus'', ''vs'']
       then ''compare''
     else if list_ex (\<lambda>w. py_in w query_lower) [''correlation'', ''relate'']
       then ''correlation''
     else ''summarize'')"

definition detect_chart_type :: "string \<Rightarrow> string option" where
  "detect_chart_type query_lower =
    (if py_in ''bar'' query_lower then Some ''bar''
     else if py_in ''line'' query_lower then Some ''line''
     else if py_in ''pie'' query_lower then Some ''pie''
     else None)"

definition fallback_analysis ::
  "(string \<Rightarrow> string) \<Rightarrow> string \<Rightarrow> string list \<Rightarrow> structured_intent" where
  "fallback_analysis str_lower query columns_ctx =
    (let query_lower = str_lower query;
         intent_name = detect_intent query_lower;
         mentioned_cols = filter (\<lambda>col. py_in (str_lower col) query_lower) columns_ctx
     in \<lparr> intent = Some intent_name,
          columns = Some (if mentioned_cols = [] then take 2 columns_ctx else mentioned_cols),
          operation = Some (detect_operation query_lower),
          filters = Some [],
          chart_type = detect_chart_type query_lower,
          explanation = Some (''I understood you want to '' @ intent_name @ '' the data'') \<rparr>)"

subsection \<open>The fallback as the specification words it\<close>









section \<open>Query execution (query\_processor.py)\<close>

text \<open>
  A row of a result table is a dict from field names to values, kept as an association
  list in field order. \<open>ChartSpec.type\<close>, \<open>ChartSpec.data\<close> and \<open>QueryResponse.text\<close> are the
  fields \<open>spec_type\<close>, \<open>spec_data\<close> and \<open>rtext\<close> here.
\<close>

type_synonym row = "(string \<times> cell) list"

record chart_spec =
  spec_type :: string
  spec_data :: "row list"
  x_axis :: string
  y_axis :: string
  title :: "string option"

record query_response =
  sender :: string
  rtext :: string
  data :: "row list option"
  chart :: "chart_spec option"

text \<open>
  The pandas computations whose results the handlers only pass on are parameters of the
  model: each may raise. \<open>corr\<close> is the matrix of \<open>DataFrame.corr()\<close> over the given numeric
  columns (\<open>None\<close> for NaN); \<open>sample_indices m n\<close> is the random generator's choice of \<open>n\<close> row
  positions among \<open>m\<close> for \<open>DataFrame.sample\<close>.
\<close>

record pandas_ops =
  value_counts_bins :: "column \<Rightarrow> py_error + row list"
  value_counts :: "column \<Rightarrow> py_error + row list"
  groupby_agg :: "frame \<Rightarrow> string \<Rightarrow> string \<Rightarrow> string \<Rightarrow> py_error + row list"
  groupby_size :: "frame \<Rightarrow> string \<Rightarrow> string \<Rightarrow> py_error + row list"
  describe :: "frame \<Rightarrow> string list \<Rightarrow> py_error + row list"
  numeric_stats :: "column \<Rightarrow> py_error + row"
  categorical_stats :: "column \<Rightarrow> py_error + row"
  column_summary :: "column \<Rightarrow> py_error + row"
  corr :: "column list \<Rightarrow> nat \<Rightarrow> nat \<Rightarrow> rat option"
  sample_indices :: "nat \<Rightarrow> nat \<Rightarrow> nat list"

text \<open>Sequencing of computations that may raise: the first exception wins.\<close>

definition and_then :: "py_error + 'a \<Rightarrow> ('a \<Rightarrow> py_error + 'b) \<Rightarrow> py_error + 'b" where
  "and_then r f = (case r of Inl e \<Rightarrow> Inl e | Inr x \<Rightarrow> f x)"

fun map_err :: "('a \<Rightarrow> py_error + 'b) \<Rightarrow> 'a list \<Rightarrow> py_error + 'b list" where
  "map_err f [] = Inr []"
| "map_err f (x # xs) = and_then (f x) (\<lambda>y. and_then (map_err f xs) (\<lambda>ys. Inr (y # ys)))"

text \<open>
  \<open>df[name]\<close> at query time. The frame was read back by \<open>pd.read_csv\<close>, which makes labels
  unique, so the first column with the label is the column; an absent label is a KeyError.
\<close>

definition getitem :: "frame \<Rightarrow> string \<Rightarrow> py_error + column" where
  "getitem df name =
    (case find (\<lambda>c. cname c = name) (cols df) of
       Some c \<Rightarrow> Inr c
     | None \<Rightarrow> Inl (KeyError name))"

definition col_numeric :: "frame \<Rightarrow> string \<Rightarrow> bool" where
  "col_numeric df name = (case getitem df name of Inr c \<Rightarrow> is_numeric_dtype c | Inl e \<Rightarrow> False)"

definition cell_at :: "frame \<Rightarrow> string \<Rightarrow> nat \<Rightarrow> cell" where
  "cell_at df name i = (case getitem df name of Inr c \<Rightarrow> cells c ! i | Inl e \<Rightarrow> Null)"

text \<open>\<open>df[names].to_dict("records")\<close> restricted to the row positions \<open>idx\<close>.\<close>

definition records_of :: "frame \<Rightarrow> string list \<Rightarrow> nat list \<Rightarrow> row list" where
  "records_of df ns idx = map (\<lambda>i. map (\<lambda>n. (n, cell_at df n i)) ns) idx"

text \<open>\<open>df[[x, y]].dropna().to_dict("records")\<close>: the rows with a value in both columns.\<close>

definition pair_rows :: "column \<Rightarrow> column \<Rightarrow> row list" where
  "pair_rows xc yc =
    map (\<lambda>p. [(cname xc, fst p), (cname yc, snd p)])
      (filter (\<lambda>p. fst p \<noteq> Null \<and> snd p \<noteq> Null) (zip (cells xc) (cells yc)))"

text \<open>Python truthiness of an optional string: neither \<open>None\<close> nor empty.\<close>

definition truthy :: "string option \<Rightarrow> bool" where
  "truthy s = (case s of None \<Rightarrow> False | Some x \<Rightarrow> x \<noteq> [])"

subsection \<open>Visualization\<close>

definition chart_rows ::
  "pandas_ops \<Rightarrow> frame \<Rightarrow> string list \<Rightarrow> string \<Rightarrow> py_error + (row list \<times> string \<times> string)" where
  "chart_rows L df columns_sel operation_arg =
    (if length columns_sel = 1 then
       and_then (getitem df (hd columns_sel)) (\<lambda>c.
         if is_numeric_dtype c
         then and_then (value_counts_bins L c) (\<lambda>d. Inr (take 20 d, ''range'', ''count''))
         else and_then (value_counts L c) (\<lambda>d. Inr (take 10 d, hd columns_sel, ''count'')))
     else
       (case columns_sel of
          x_col # y_col # rest \<Rightarrow>
            and_then (getitem df y_col) (\<lambda>yc.
              if is_numeric_dtype yc then
                and_then (getitem df x_col) (\<lambda>xc.
                  if \<not> is_numeric_dtype xc
                  then and_then (groupby_agg L df x_col y_col operation_arg)
                         (\<lambda>d. Inr (take 20 d, x_col, y_col))
                  else Inr (take 200 (pair_rows xc yc), x_col, y_col))
              else and_then (groupby_size L df x_col y_col)
                     (\<lambda>d. Inr (take 20 d, x_col, ''count'')))
        | _ \<Rightarrow> Inl (ValueError ''not enough values to unpack (expected 2, got 0)'')))"

definition create_visualization ::
  "pandas_ops \<Rightarrow> frame \<Rightarrow> string list \<Rightarrow> string option \<Rightarrow> string \<Rightarrow> py_error + query_response" where
  "create_visualization L df columns_arg chart_type_arg operation_arg =
    (let columns1 = (if columns_arg = [] then take 2 (names df) else columns_arg);
         columns2 = filter (\<lambda>c. c \<in> set (names df)) columns1;
         columns3 = (if columns2 = [] then take 2 (names df) else columns2)
     in and_then (chart_rows L df columns3 operation_arg) (\<lambda>(chart_data, x, y).
          let chosen =
                (case chart_type_arg of
                   Some t \<Rightarrow>
                     if t \<noteq> [] then t
                     else if length chart_data \<le> 5 then ''pie''
                     else if columns3 \<noteq> [] \<and> col_numeric df (hd columns3) then ''line''
                     else ''bar''
                 | None \<Rightarrow>
                     if length chart_data \<le> 5 then ''pie''
                     else if columns3 \<noteq> [] \<and> col_numeric df (hd columns3) then ''line''
                     else ''bar'')
          in Inr \<lparr> sender = ''ai'',
                   rtext = ''Here's a '' @ chosen @ '' chart showing '' @ y @ '' by '' @ x
                     @ ''. Showing up to '' @ str_of_nat (length chart_data) @ '' items.'',
                   data = None,
                   chart = Some \<lparr> spec_type = chosen, spec_data = chart_data, x_axis = x,
                                  y_axis = y, title = Some (y @ '' by '' @ x) \<rparr> \<rparr>))"

subsection \<open>Aggregation\<close>

definition nums :: "cell list \<Rightarrow> rat list" where
  "nums vs = concat (map (\<lambda>v. case v of Num r \<Rightarrow> [r] | _ \<Rightarrow> []) vs)"

definition reduce_cells :: "string \<Rightarrow> cell list \<Rightarrow> cell" where
  "reduce_cells op vs =
    (let xs = nums vs in
     if op = ''sum'' then Num (sum_list xs)
     else if op = ''count'' then Num (of_nat (length xs))
     else if xs = [] then Null
     else if op = ''mean'' then Num (sum_list xs / of_nat (length xs))
     else if op = ''max'' then Num (fold max (tl xs) (hd xs))
     else Num (fold min (tl xs) (hd xs)))"

definition perform_aggregation ::
  "pandas_ops \<Rightarrow> frame \<Rightarrow> string list \<Rightarrow> string \<Rightarrow> py_error + query_response" where
  "perform_aggregation L df columns_arg operation_arg =
    (let numeric_cols = map cname (filter is_number (cols df));
         columns1 = (if columns_arg = [] \<or> columns_arg = [''*''] then numeric_cols
                     else filter (\<lambda>c. c \<in> set numeric_cols) columns_arg)
     in if columns1 = [] then
          Inr \<lparr> sender = ''ai'',
                rtext = ''No numeric columns found for aggregation. Please specify numeric columns.'',
                data = None, chart = None \<rparr>
        else
          and_then
            (if operation_arg \<in> set [''sum'', ''mean'', ''count'', ''max'', ''min'']
             then map_err (\<lambda>n. and_then (getitem df n) (\<lambda>c.
                    Inr [(''Column'', Txt n), (''Value'', reduce_cells operation_arg (cells c))]))
                    columns1
             else describe L df columns1)
            (\<lambda>rows. Inr \<lparr> sender = ''ai'',
                rtext = ''Here are the '' @ operation_arg @ '' values for the requested columns:'',
                data = Some rows, chart = None \<rparr>))"

subsection \<open>Filtering\<close>

text \<open>\<open>filtered_df[col] == value\<close>: a missing cell equals nothing.\<close>

definition cell_matches :: "cell \<Rightarrow> cell \<Rightarrow> bool" where
  "cell_matches c v = (c \<noteq> Null \<and> c = v)"

definition apply_filter :: "frame \<Rightarrow> nat list \<Rightarrow> string \<times> cell \<Rightarrow> nat list" where
  "apply_filter df idx f =
    (if fst f \<in> set (names df)
     then filter (\<lambda>i. cell_matches (cell_at df (fst f) i) (snd f)) idx
     else idx)"

definition filter_data :: "frame \<Rightarrow> (string \<times> cell) list \<Rightarrow> py_error + query_response" where
  "filter_data df filters_arg =
    (let filtered = foldl (apply_filter df) [0..<index_len df] filters_arg
     in if filtered = [] \<or> cols df = [] then
          Inr \<lparr> sender = ''ai'',
                rtext = ''No data matches the specified filters. Try adjusting your criteria.'',
                data = None, chart = None \<rparr>
        else
          Inr \<lparr> sender = ''ai'',
                rtext = ''Found '' @ str_of_nat (length filtered)
                  @ '' matching records. Showing the first 20:'',
                data = Some (records_of df (names df) (take 20 filtered)),
                chart = None \<rparr>)"

subsection \<open>Comparison\<close>

text \<open>
  \<open>frame.sample(n)\<close> draws \<open>n\<close> rows without replacement and raises a ValueError when the
  frame has fewer than \<open>n\<close> rows. The positions come from the generator's choice.
\<close>

definition sample :: "pandas_ops \<Rightarrow> nat \<Rightarrow> row list \<Rightarrow> py_error + row list" where
  "sample L n rows =
    (if length rows < n
     then Inl (ValueError ''Cannot take a larger sample than population'')
     else Inr (map (\<lambda>i. rows ! i)
                 (take n (filter (\<lambda>i. i < length rows) (sample_indices L (length rows) n)))))"

definition compare_chart :: "pandas_ops \<Rightarrow> frame \<Rightarrow> string list \<Rightarrow> py_error + chart_spec option" where
  "compare_chart L df numeric_cols =
    (case numeric_cols of
       a # b # rest \<Rightarrow>
         and_then (getitem df a) (\<lambda>xc.
         and_then (getitem df b) (\<lambda>yc.
         and_then (sample L (min 100 (max 1 (index_len df))) (pair_rows xc yc)) (\<lambda>chart_data.
           Inr (Some \<lparr> spec_type = ''line'', spec_data = chart_data, x_axis = a, y_axis = b,
                        title = Some (''Comparison: '' @ a @ '' vs '' @ b) \<rparr>))))
     | _ \<Rightarrow> Inr None)"

definition compare_columns ::
  "pandas_ops \<Rightarrow> frame \<Rightarrow> string list \<Rightarrow> py_error + query_response" where
  "compare_columns L df columns_arg =
    (if columns_arg = [] \<or> length columns_arg < 2 then
       Inr \<lparr> sender = ''ai'', rtext = ''Please specify at least two columns to compare.'',
             data = None, chart = None \<rparr>
     else
       let columns1 = take 3 (filter (\<lambda>c. c \<in> set (names df)) columns_arg);
           numeric_cols = filter (col_numeric df) columns1;
           cat_cols = filter (\<lambda>c. c \<notin> set numeric_cols) columns1
       in and_then (map_err (\<lambda>n. and_then (getitem df n) (numeric_stats L)) numeric_cols) (\<lambda>num_rows.
          and_then (map_err (\<lambda>n. and_then (getitem df n) (categorical_stats L)) cat_cols) (\<lambda>cat_rows.
          and_then (compare_chart L df numeric_cols) (\<lambda>ch.
            Inr \<lparr> sender = ''ai'',
                  rtext = ''Comparison of '' @ join '', '' columns1 @ '':'',
                  data = Some (num_rows @ cat_rows),
                  chart = ch \<rparr>))))"

subsection \<open>Correlation\<close>

text \<open>
  \<open>round(x, 3)\<close>: to the nearest multiple of 1/1000, a tie going to the even one.
\<close>

definition round3 :: "rat \<Rightarrow> rat" where
  "round3 x =
    (let y = x * 1000; n = \<lfloor>y\<rfloor>; d = y - of_int n
     in of_int (if d < 1/2 then n else if 1/2 < d then n + 1 else if even n then n else n + 1)
          / 1000)"

record corr_entry =
  column_1 :: string
  column_2 :: string
  correlation :: rat
  strength :: string

definition entry_row :: "corr_entry \<Rightarrow> row" where
  "entry_row e =
    [(''Column 1'', Txt (column_1 e)), (''Column 2'', Txt (column_2 e)),
     (''Correlation'', Num (correlation e)), (''Strength'', Txt (strength e))]"

definition corr_entries :: "string list \<Rightarrow> nat \<Rightarrow> nat \<Rightarrow> rat option \<Rightarrow> corr_entry list" where
  "corr_entries cs i j corr_value =
    (case corr_value of
       None \<Rightarrow> []
     | Some r \<Rightarrow>
         if 1/2 < \<bar>r\<bar>
         then [\<lparr> column_1 = cs ! i, column_2 = cs ! j, correlation = round3 r,
                  strength = (if 7/10 < \<bar>r\<bar> then ''Strong'' else ''Moderate'') \<rparr>]
         else [])"

definition strong_correlations :: "pandas_ops \<Rightarrow> column list \<Rightarrow> corr_entry list" where
  "strong_correlations L numeric =
    (let cs = map cname numeric
     in concat (map (\<lambda>i. concat (map (\<lambda>j. corr_entries cs i j (corr L numeric i j))
                                    [i + 1 ..< length cs]))
                  [0 ..< length cs]))"

definition sort_correlations :: "corr_entry list \<Rightarrow> corr_entry list" where
  "sort_correlations es = sort_key (\<lambda>e. - \<bar>correlation e\<bar>) es"

definition find_correlations :: "pandas_ops \<Rightarrow> frame \<Rightarrow> py_error + query_response" where
  "find_correlations L df =
    (let numeric = filter is_number (cols df)
     in if numeric = [] \<or> index_len df = 0 then
          Inr \<lparr> sender = ''ai'', rtext = ''No numeric columns found for correlation analysis.'',
                data = None, chart = None \<rparr>
        else
          let strong = sort_correlations (strong_correlations L numeric)
          in if strong = [] then
               Inr \<lparr> sender = ''ai'',
                     rtext = ''No strong correlations found between numeric columns (threshold: |r| > 0.5).'',
                     data = None, chart = None \<rparr>
             else
               Inr \<lparr> sender = ''ai'',
                     rtext = ''Found '' @ str_of_nat (length strong) @ '' significant correlations:'',
                     data = Some (map entry_row (take 10 strong)),
                     chart = None \<rparr>)"

subsection \<open>Summary\<close>

definition summarize_data ::
  "pandas_ops \<Rightarrow> frame \<Rightarrow> string list \<Rightarrow> py_error + query_response" where
  "summarize_data L df columns_arg =
    (let columns1 = (if columns_arg = [] then names df else columns_arg);
         columns2 = take 5 (filter (\<lambda>c. c \<in> set (names df)) columns1)
     in and_then (map_err (\<lambda>n. and_then (getitem df n) (column_summary L)) columns2) (\<lambda>summary_data.
          Inr \<lparr> sender = ''ai'',
                rtext = ''Summary of '' @ join '', '' columns2 @ '':'',
                data = Some (records_of df columns2 (take 10 [0..<index_len df])),
                chart = None \<rparr>))"

subsection \<open>The router\<close>

text \<open>
  \<open>dispatch\<close> is the body of the \<open>try\<close> block of \<open>_execute_intent\<close>; \<open>execute_intent\<close> adds
  the \<open>except Exception\<close> clause, which turns any exception into a response.
\<close>

definition dispatch :: "pandas_ops \<Rightarrow> frame \<Rightarrow> structured_intent \<Rightarrow> py_error + query_response" where
  "dispatch L df intent_arg =
    (let intent_type = (case intent intent_arg of None \<Rightarrow> ''summarize'' | Some s \<Rightarrow> s);
         columns_sel = (case columns intent_arg of None \<Rightarrow> [] | Some cs \<Rightarrow> cs);
         operation_sel = (case operation intent_arg of None \<Rightarrow> ''describe'' | Some s \<Rightarrow> s);
         chart_type_sel = chart_type intent_arg
     in if intent_type = ''visualize'' \<or> truthy chart_type_sel
          then create_visualization L df columns_sel chart_type_sel operation_sel
        else if intent_type = ''aggregate''
          then perform_aggregation L df columns_sel operation_sel
        else if intent_type = ''filter''
          then filter_data df (case filters intent_arg of None \<Rightarrow> [] | Some fs \<Rightarrow> fs)
        else if intent_type = ''compare''
          then compare_columns L df columns_sel
        else if intent_type = ''correlation''
          then find_correlations L df
        else summarize_data L df columns_sel)"

definition execute_intent ::
  "pandas_ops \<Rightarrow> frame \<Rightarrow> structured_intent \<Rightarrow> string \<Rightarrow> query_response" where
  "execute_intent L df intent_arg query =
    (case dispatch L df intent_arg of
       Inr r \<Rightarrow> r
     | Inl e \<Rightarrow>
         \<lparr> sender = ''ai'',
           rtext = ''I encountered an error processing your request: '' @ str_of_error e
             @ ''. Could you please rephrase your question?'',
           data = None, chart = None \<rparr>)"

text \<open>A response that answers: it comes from the assistant and says something.\<close>

definition answered :: "query_response \<Rightarrow> bool" where
  "answered r = (sender r = ''ai'' \<and> rtext r \<noteq> [])"


section \<open>Cleaning (data\_cleaner.py)\<close>

subsection \<open>Column names\<close>

text \<open>
  The regular-expression classes are the ASCII ones: \<open>\s\<close> and \<open>str.strip()\<close> take the
  characters for which \<open>str.isspace\<close> holds below 128, \<open>\w\<close> takes letters, digits and the
  underscore.
\<close>

definition is_space :: "char \<Rightarrow> bool" where
  "is_space c = (c \<in> set [CHR 0x09, CHR 0x0A, CHR 0x0B, CHR 0x0C, CHR 0x0D,
                            CHR 0x1C, CHR 0x1D, CHR 0x1E, CHR 0x1F, CHR 0x20])"

definition is_word :: "char \<Rightarrow> bool" where
  "is_word c = (c \<in> set (ascii_upper @ ascii_lower @ ''0123456789_''))"

definition is_underscore :: "char \<Rightarrow> bool" where
  "is_underscore c = (c = CHR ''_'')"

text \<open>\<open>s.strip(chars)\<close>, for the characters satisfying \<open>P\<close>.\<close>

definition strip_chars :: "(char \<Rightarrow> bool) \<Rightarrow> string \<Rightarrow> string" where
  "strip_chars P s = rev (dropWhile P (rev (dropWhile P s)))"

definition strip :: "string \<Rightarrow> string" where
  "strip s = strip_chars is_space s"

text \<open>\<open>re.sub(r'P+', rep, s)\<close>: every maximal run of characters satisfying \<open>P\<close> becomes \<open>rep\<close>.\<close>

function sub_run :: "(char \<Rightarrow> bool) \<Rightarrow> string \<Rightarrow> string \<Rightarrow> string" where
  "sub_run P rep [] = []"
| "sub_run P rep (c # s) =
    (if P c then rep @ sub_run P rep (dropWhile P s) else c # sub_run P rep s)"
  by pat_completeness auto
termination
  by (relation "measure (\<lambda>(P, rep, s). length s)") (auto simp: le_imp_less_Suc length_dropWhile_le)

definition clean_column_name :: "string \<Rightarrow> string" where
  "clean_column_name name =
    (let n1 = strip name;
         n2 = filter (\<lambda>c. is_word c \<or> is_space c) n1;
         n3 = sub_run is_space ''_'' n2;
         n4 = sub_run is_underscore ''_'' n3;
         n5 = strip_chars is_underscore n4
     in if n5 = [] then ''Column'' else n5)"

text \<open>
  \<open>cols[cols.duplicated()].unique()\<close>: the labels that occur again after their first
  occurrence, each once, in order of appearance.
\<close>

definition duplicated :: "string list \<Rightarrow> string list" where
  "duplicated xs = map (\<lambda>i. xs ! i) (filter (\<lambda>i. xs ! i \<in> set (take i xs)) [0..<length xs])"

definition uniq :: "'a list \<Rightarrow> 'a list" where
  "uniq xs = rev (remdups (rev xs))"

text \<open>
  The inner loop for one duplicated label: its positions are taken from the current labels,
  the first keeps its label, the \<open>i\<close>-th further one becomes \<open>dup_i\<close>.
\<close>

fun suffix_from :: "string \<Rightarrow> nat \<Rightarrow> string list \<Rightarrow> string list" where
  "suffix_from dup i [] = []"
| "suffix_from dup i (c # cs) =
    (if c = dup then (dup @ ''_'' @ str_of_nat i) # suffix_from dup (Suc i) cs
     else c # suffix_from dup i cs)"

fun suffix_dups :: "string \<Rightarrow> string list \<Rightarrow> string list" where
  "suffix_dups dup [] = []"
| "suffix_dups dup (c # cs) =
    (if c = dup then c # suffix_from dup 1 cs else c # suffix_dups dup cs)"

definition dedup_names :: "string list \<Rightarrow> string list" where
  "dedup_names ns = foldl (\<lambda>cs dup. suffix_dups dup cs) ns (uniq (duplicated ns))"

text \<open>\<open>df.columns = new\<close>: the labels are replaced position by position.\<close>

definition set_names :: "frame \<Rightarrow> string list \<Rightarrow> frame" where
  "set_names df ns = df\<lparr>cols := map (\<lambda>p. (fst p)\<lparr>cname := snd p\<rparr>) (zip (cols df) ns)\<rparr>"

definition clean_column_names :: "frame \<Rightarrow> frame" where
  "clean_column_names df = set_names df (dedup_names (map clean_column_name (names df)))"

subsection \<open>Access by label inside the cleaner\<close>

text \<open>
  \<open>df[col]\<close> is a Series when exactly one column carries the label. When several do it is a
  DataFrame, and the Series operations the cleaner applies to it raise (\<open>.dtype\<close> is an
  AttributeError, the truth value of a Series a ValueError); an absent label is a KeyError.
\<close>

definition select_col :: "frame \<Rightarrow> string \<Rightarrow> py_error + column" where
  "select_col df name =
    (case filter (\<lambda>c. cname c = name) (cols df) of
       [] \<Rightarrow> Inl (KeyError name)
     | [c] \<Rightarrow> Inr c
     | _ \<Rightarrow> Inl (AttributeError ''a DataFrame where a Series is expected''))"

definition drop_column :: "frame \<Rightarrow> string \<Rightarrow> frame" where
  "drop_column df name = df\<lparr>cols := filter (\<lambda>c. cname c \<noteq> name) (cols df)\<rparr>"

definition assign_column :: "frame \<Rightarrow> string \<Rightarrow> column \<Rightarrow> frame" where
  "assign_column df name c' = df\<lparr>cols := map (\<lambda>c. if cname c = name then c' else c) (cols df)\<rparr>"

text \<open>
  The loop \<open>for col in labels: ... df[col] ...\<close> shared by three stages: each visit reads the
  column, and either assigns a new one under the same label or drops it.
\<close>

fun col_loop :: "(column \<Rightarrow> column option) \<Rightarrow> string list \<Rightarrow> frame \<Rightarrow> py_error + frame" where
  "col_loop f [] df = Inr df"
| "col_loop f (col # rest) df =
    (case select_col df col of
       Inl e \<Rightarrow> Inl e
     | Inr c \<Rightarrow>
         col_loop f rest
           (case f c of None \<Rightarrow> drop_column df col | Some c' \<Rightarrow> assign_column df col c'))"

subsection \<open>Stage 1: unnamed columns\<close>

definition first_non_null :: "cell list \<Rightarrow> cell" where
  "first_non_null vs = (case filter (\<lambda>v. v \<noteq> Null) vs of [] \<Rightarrow> Null | v # rest \<Rightarrow> v)"

text \<open>The name taken from the first value: a non-empty text under 50 characters.\<close>

definition inferred_name :: "cell \<Rightarrow> string option" where
  "inferred_name v =
    (case v of
       Txt s \<Rightarrow> if s \<noteq> [] \<and> length s < 50 then Some (clean_column_name s) else None
     | _ \<Rightarrow> None)"

fun unnamed_loop ::
  "string list \<Rightarrow> frame \<Rightarrow> string list \<Rightarrow> nat \<Rightarrow> py_error + (frame \<times> string list)" where
  "unnamed_loop [] df new_columns unnamed_count = Inr (df, new_columns)"
| "unnamed_loop (col # rest) df new_columns unnamed_count =
    (if py_in ''Unnamed'' col then
       (case select_col df col of
          Inl e \<Rightarrow> Inl e
        | Inr c \<Rightarrow>
            if list_ex (\<lambda>v. v \<noteq> Null) (cells c) then
              (case inferred_name (first_non_null (cells c)) of
                 Some n \<Rightarrow> unnamed_loop rest df (new_columns @ [n]) unnamed_count
               | None \<Rightarrow>
                   unnamed_loop rest df
                     (new_columns @ [''Column_'' @ str_of_nat (Suc unnamed_count)])
                     (Suc unnamed_count))
            else unnamed_loop rest (drop_column df col) new_columns unnamed_count)
     else unnamed_loop rest df (new_columns @ [col]) unnamed_count)"

definition handle_unnamed_columns :: "frame \<Rightarrow> py_error + frame" where
  "handle_unnamed_columns df =
    (case unnamed_loop (names df) df [] 0 of
       Inl e \<Rightarrow> Inl e
     | Inr (df', new_columns) \<Rightarrow>
         Inr (if length new_columns = length (cols df') then set_names df' new_columns else df'))"

subsection \<open>Stage 3: type inference\<close>

text \<open>
  What the cleaner takes from pandas and numpy is a parameter: the parse of one string by
  \<open>pd.to_numeric(errors='coerce')\<close> (\<open>None\<close> for NaN), the parse of a whole column by
  \<open>pd.to_datetime(errors='coerce')\<close> (\<open>None\<close> when it raises, else the timestamp at each
  position), the text numpy prints for an array of strings, whether an object column with
  missing values counts as a string column (\<open>is_string_dtype\<close>, which differs between pandas
  versions), \<open>str\<close> of a number and of a timestamp, and the string operations that depend
  on Unicode character classes: \<open>str.lower\<close>, \<open>str.strip()\<close> and the replacement of every
  run of whitespace by one space (\<open>str.replace(r'\s+', ' ', regex=True)\<close>).
\<close>

record cleaner_lib =
  to_numeric :: "string \<Rightarrow> rat option"
  to_datetime :: "cell list \<Rightarrow> (nat \<Rightarrow> int option) option"
  array_repr :: "string list \<Rightarrow> string"
  all_strings :: "cell list \<Rightarrow> bool"
  str_of_num :: "rat \<Rightarrow> string"
  str_of_time :: "int \<Rightarrow> string"
  str_lower :: "string \<Rightarrow> string"
  str_strip :: "string \<Rightarrow> string"
  collapse_spaces :: "string \<Rightarrow> string"

text \<open>\<open>str(v)\<close>, which is also what \<open>astype(str)\<close> puts in a cell.\<close>

definition py_str :: "cleaner_lib \<Rightarrow> cell \<Rightarrow> string" where
  "py_str L v =
    (case v of
       Null \<Rightarrow> ''nan''
     | Txt s \<Rightarrow> s
     | Bool b \<Rightarrow> (if b then ''True'' else ''False'')
     | Num r \<Rightarrow> str_of_num L r
     | Time t \<Rightarrow> str_of_time L t)"

definition numeric_parse :: "cleaner_lib \<Rightarrow> cell \<Rightarrow> rat option" where
  "numeric_parse L v =
    to_numeric L
      (str_strip L (filter (\<lambda>c. c \<noteq> CHR ''$'') (filter (\<lambda>c. c \<noteq> CHR '','') (py_str L v))))"

definition count_parsed :: "'a option list \<Rightarrow> nat" where
  "count_parsed xs = length (filter (\<lambda>x. x \<noteq> None) xs)"

definition num_cell :: "rat option \<Rightarrow> cell" where
  "num_cell x = (case x of Some r \<Rightarrow> Num r | None \<Rightarrow> Null)"

definition time_cell :: "int option \<Rightarrow> cell" where
  "time_cell x = (case x of Some t \<Rightarrow> Time t | None \<Rightarrow> Null)"

definition datetime_attempt :: "cleaner_lib \<Rightarrow> nat \<Rightarrow> column \<Rightarrow> column option" where
  "datetime_attempt L n c =
    (let sample_strs = map (py_str L) (take 10 (filter (\<lambda>v. v \<noteq> Null) (cells c)))
     in if list_ex (\<lambda>k. py_in k (array_repr L sample_strs)) [''/'', ''-'', ''20'', ''19'']
        then (case to_datetime L (cells c) of
                None \<Rightarrow> None
              | Some parsed \<Rightarrow>
                  let datetime_col = map parsed [0..<length (cells c)]
                  in if n < 2 * count_parsed datetime_col
                     then Some (c\<lparr>ctype := Datetime, cells := map time_cell datetime_col\<rparr>)
                     else None)
        else None)"

definition bool_map :: "cell \<Rightarrow> cell" where
  "bool_map v =
    (case v of
       Txt s \<Rightarrow>
         if s \<in> set [''true'', ''True'', ''TRUE'', ''1'', ''yes'', ''Yes'', ''YES''] then Bool True
         else if s \<in> set [''false'', ''False'', ''FALSE'', ''0'', ''no'', ''No'', ''NO''] then Bool False
         else Null
     | _ \<Rightarrow> Null)"

definition boolean_attempt :: "cleaner_lib \<Rightarrow> column \<Rightarrow> column" where
  "boolean_attempt L c =
    (let unique_vals = uniq (filter (\<lambda>v. v \<noteq> Null) (cells c));
         lower_vals = map (\<lambda>v. str_lower L (py_str L v)) unique_vals
     in if length unique_vals \<le> 3
           \<and> list_ex (\<lambda>val. val \<in> set lower_vals) [''true'', ''false'', ''yes'', ''no'', ''1'', ''0'']
        then let mapped = map bool_map (cells c)
             in c\<lparr>ctype := (if Null \<in> set mapped then Object else Boolean), cells := mapped\<rparr>
        else c)"

definition convert_column :: "cleaner_lib \<Rightarrow> nat \<Rightarrow> column \<Rightarrow> column" where
  "convert_column L n c =
    (if ctype c \<noteq> Object then c
     else
       let numeric_col = map (numeric_parse L) (cells c)
       in if n < 2 * count_parsed numeric_col
          then c\<lparr>ctype := Numeric, cells := map num_cell numeric_col\<rparr>
          else (case datetime_attempt L n c of
                  Some c' \<Rightarrow> c'
                | None \<Rightarrow> boolean_attempt L c))"

definition detect_and_convert_types :: "cleaner_lib \<Rightarrow> frame \<Rightarrow> py_error + frame" where
  "detect_and_convert_types L df =
    col_loop (\<lambda>c. Some (convert_column L (index_len df) c)) (names df) df"

subsection \<open>Stage 4: missing values\<close>

definition median :: "rat list \<Rightarrow> rat" where
  "median xs =
    (let s = sort xs; k = length s
     in if even k then (s ! (k div 2 - 1) + s ! (k div 2)) / 2 else s ! (k div 2))"

definition fillna :: "cell \<Rightarrow> cell list \<Rightarrow> cell list" where
  "fillna v vs = map (\<lambda>x. if x = Null then v else x) vs"

definition null_count :: "cell list \<Rightarrow> nat" where
  "null_count vs = length (filter (\<lambda>v. v = Null) vs)"

definition is_string_dtype :: "cleaner_lib \<Rightarrow> column \<Rightarrow> bool" where
  "is_string_dtype L c = (ctype c = Object \<and> all_strings L (cells c))"

definition handle_missing_column :: "cleaner_lib \<Rightarrow> nat \<Rightarrow> column \<Rightarrow> column option" where
  "handle_missing_column L n c =
    (let k = null_count (cells c)
     in if k = n then None
        else if 0 < k then
          (if 9 * n < 10 * k then None
           else if is_numeric_dtype c then
             (if 2 * k < n
              then Some (c\<lparr>cells := fillna (if nums (cells c) = [] then Null
                                               else Num (median (nums (cells c)))) (cells c)\<rparr>)
              else Some c)
           else if is_string_dtype L c then Some (c\<lparr>cells := fillna (Txt []) (cells c)\<rparr>)
           else Some c)
        else Some c)"

text \<open>Rows by position.\<close>

definition row_cells :: "frame \<Rightarrow> nat \<Rightarrow> cell list" where
  "row_cells df i = map (\<lambda>c. cells c ! i) (cols df)"

definition take_rows :: "frame \<Rightarrow> nat list \<Rightarrow> frame" where
  "take_rows df idx =
    \<lparr> index_len = length idx,
      cols = map (\<lambda>c. c\<lparr>cells := map (\<lambda>i. cells c ! i) idx\<rparr>) (cols df) \<rparr>"

definition dropna_all :: "frame \<Rightarrow> frame" where
  "dropna_all df =
    take_rows df (filter (\<lambda>i. list_ex (\<lambda>v. v \<noteq> Null) (row_cells df i)) [0..<index_len df])"

definition handle_missing_values :: "cleaner_lib \<Rightarrow> frame \<Rightarrow> py_error + frame" where
  "handle_missing_values L df =
    (case col_loop (handle_missing_column L (index_len df)) (names df) df of
       Inl e \<Rightarrow> Inl e
     | Inr df' \<Rightarrow> Inr (dropna_all df'))"

subsection \<open>Stage 5: duplicate rows\<close>

definition remove_duplicate_rows :: "frame \<Rightarrow> frame" where
  "remove_duplicate_rows df =
    (if cols df = [] \<or> index_len df = 0 then df
     else take_rows df
            (filter (\<lambda>i. row_cells df i \<notin> set (map (row_cells df) [0..<i])) [0..<index_len df]))"

subsection \<open>Stage 6: text standardization\<close>

text \<open>\<open>s.replace(old, new)\<close> for a non-empty \<open>old\<close>.\<close>

function replace_all :: "string \<Rightarrow> string \<Rightarrow> string \<Rightarrow> string" where
  "replace_all old new [] = []"
| "replace_all old new (c # s) =
    (if old \<noteq> [] \<and> starts_with (c # s) old
     then new @ replace_all old new (drop (length old - 1) s)
     else c # replace_all old new s)"
  by pat_completeness auto
termination
  by (relation "measure (\<lambda>(old, new, s). length s)") auto

text \<open>
  The literals of the encoding repair, as UTF-8 bytes: \<open>A-tilde, copyright sign\<close> becomes
  \<open>e-acute\<close>, then \<open>A-tilde\<close> becomes \<open>a-grave\<close>.
\<close>

definition mojibake_e :: string where
  "mojibake_e = [CHR 0xC3, CHR 0x83, CHR 0xC2, CHR 0xA9]"

definition e_acute :: string where
  "e_acute = [CHR 0xC3, CHR 0xA9]"

definition mojibake_a :: string where
  "mojibake_a = [CHR 0xC3, CHR 0x83]"

definition a_grave :: string where
  "a_grave = [CHR 0xC3, CHR 0xA0]"

definition standardize_cell :: "cleaner_lib \<Rightarrow> cell \<Rightarrow> cell" where
  "standardize_cell L v =
    (let s1 = str_strip L (py_str L v);
         s2 = collapse_spaces L s1;
         s3 = replace_all mojibake_a a_grave (replace_all mojibake_e e_acute s2)
     in if s3 \<in> set [''nan'', ''NaN'', ''NULL'', ''null'', ''None''] then Null else Txt s3)"

text \<open>
  \<open>Series.replace\<close> infers the type of an object column again when it has replaced a value:
  a column left without any string, all missing, comes out as a float column.
\<close>

definition standardize_column :: "cleaner_lib \<Rightarrow> column \<Rightarrow> column option" where
  "standardize_column L c =
    (let vs = map (standardize_cell L) (cells c)
     in Some (c\<lparr>ctype := (if vs \<noteq> [] \<and> list_all (\<lambda>v. v = Null) vs then Numeric else Object),
                cells := vs\<rparr>))"

definition standardize_text_columns :: "cleaner_lib \<Rightarrow> frame \<Rightarrow> py_error + frame" where
  "standardize_text_columns L df =
    col_loop (standardize_column L) (map cname (filter (\<lambda>c. ctype c = Object) (cols df))) df"

subsection \<open>The pipeline\<close>

definition clean_dataframe :: "cleaner_lib \<Rightarrow> frame \<Rightarrow> py_error + frame" where
  "clean_dataframe L df =
    and_then (handle_unnamed_columns df) (\<lambda>df1.
    and_then (detect_and_convert_types L (clean_column_names df1)) (\<lambda>df3.
    and_then (handle_missing_values L df3) (\<lambda>df4.
    standardize_text_columns L (remove_duplicate_rows df4))))"

text \<open>The frame handed to text standardization: stages 1 to 5.\<close>

definition clean_before_text :: "cleaner_lib \<Rightarrow> frame \<Rightarrow> py_error + frame" where
  "clean_before_text L df =
    and_then (handle_unnamed_columns df) (\<lambda>df1.
    and_then (detect_and_convert_types L (clean_column_names df1)) (\<lambda>df3.
    and_then (handle_missing_values L df3) (\<lambda>df4.
    Inr (remove_duplicate_rows df4))))"

subsection \<open>The effect of the column loop\<close>

text \<open>
  What \<open>col_loop f labels\<close> does to the list of columns when it does not raise: a column
  whose label is among \<open>labels\<close> is replaced by the column \<open>f\<close> gives, or removed when
  \<open>f\<close> gives none; the other columns stay.
\<close>

definition apply_cols :: "(column \<Rightarrow> column option) \<Rightarrow> string list \<Rightarrow> column list \<Rightarrow> column list" where
  "apply_cols f ls cs =
    concat (map (\<lambda>c. if cname c \<in> set ls then (case f c of None \<Rightarrow> [] | Some c' \<Rightarrow> [c']) else [c]) cs)"

section \<open>Concrete library behaviour and inputs for the examples\<close>

text \<open>
  For the examples the library parameters are fixed to what pandas 2.1.3 and numpy 1.26.2
  (the pinned versions) do on the strings that occur in them: a string of decimal digits
  parses as that number and no other string of the examples parses; an array of short
  strings prints as its quoted elements between brackets; an object column counts as a
  string column when every cell is a string; no string of the examples is a date; the
  strings of the examples are ASCII, where lower-casing, stripping and the whitespace
  pattern are \<open>lower_ascii\<close>, \<open>strip\<close> and \<open>sub_run is_space\<close>.
\<close>

definition digit_val :: "char \<Rightarrow> nat" where
  "digit_val c = length (takeWhile (\<lambda>d. d \<noteq> c) ''0123456789'')"

definition plain_numeric :: "string \<Rightarrow> rat option" where
  "plain_numeric s =
    (if s \<noteq> [] \<and> list_all (\<lambda>c. c \<in> set ''0123456789'') s
     then Some (of_nat (foldl (\<lambda>a c. 10 * a + digit_val c) 0 s))
     else None)"

definition plain_repr :: "string list \<Rightarrow> string" where
  "plain_repr xs = ''['' @ join '' '' (map (\<lambda>s. [CHR 0x27] @ s @ [CHR 0x27]) xs) @ '']''"

definition all_text :: "cell list \<Rightarrow> bool" where
  "all_text vs = list_all (\<lambda>v. case v of Txt s \<Rightarrow> True | _ \<Rightarrow> False) vs"

definition plain_lib :: cleaner_lib where
  "plain_lib =
    \<lparr> to_numeric = plain_numeric,
      to_datetime = (\<lambda>vs. Some (\<lambda>i. None)),
      array_repr = plain_repr,
      all_strings = all_text,
      str_of_num = (\<lambda>r. str_of_nat (nat \<lfloor>r\<rfloor>)),
      str_of_time = (\<lambda>t. str_of_nat (nat t)),
      str_lower = lower_ascii,
      str_strip = strip,
      collapse_spaces = sub_run is_space '' '' \<rparr>"

definition text_column :: "string \<Rightarrow> string list \<Rightarrow> column" where
  "text_column n vs = \<lparr> cname = n, ctype = Object, cells = map Txt vs \<rparr>"

definition num_column :: "string \<Rightarrow> rat list \<Rightarrow> column" where
  "num_column n vs = \<lparr> cname = n, ctype = Numeric, cells = map Num vs \<rparr>"

text \<open>
  On the query side the examples take paths on which no opaque pandas computation is
  called, so each of them may raise here; no two columns correlate, and the sampler
  offers the row positions in order.
\<close>

definition failing_ops :: pandas_ops where
  "failing_ops =
    \<lparr> value_counts_bins = (\<lambda>c. Inl (LibraryError ''value_counts'')),
      value_counts = (\<lambda>c. Inl (LibraryError ''value_counts'')),
      groupby_agg = (\<lambda>df x y op. Inl (LibraryError ''groupby'')),
      groupby_size = (\<lambda>df x y. Inl (LibraryError ''groupby'')),
      describe = (\<lambda>df cs. Inl (LibraryError ''describe'')),
      numeric_stats = (\<lambda>c. Inl (LibraryError ''stats'')),
      categorical_stats = (\<lambda>c. Inl (LibraryError ''stats'')),
      column_summary = (\<lambda>c. Inl (LibraryError ''summary'')),
      corr = (\<lambda>cs i j. None),
      sample_indices = (\<lambda>m n. [0..<m]) \<rparr>"

definition sales_frame :: frame where
  "sales_frame =
    \<lparr> index_len = 2,
      cols = [text_column ''region'' [''east'', ''west''], num_column ''sales'' [10, 20]] \<rparr>"

definition xy_frame :: frame where
  "xy_frame =
    \<lparr> index_len = 3,
      cols = [num_column ''x'' [1, 2, 3], num_column ''y'' [6, 4, 2]] \<rparr>"

definition empty_frame :: frame where
  "empty_frame = \<lparr> index_len = 0, cols = [] \<rparr>"

definition visualize_intent :: structured_intent where
  "visualize_intent =
    \<lparr> intent = Some ''visualize'', columns = Some [], operation = Some ''describe'',
      filters = Some [], chart_type = None, explanation = None \<rparr>"







text \<open>Raw tables for the examples of the cleaner.\<close>

definition colliding_frame :: frame where
  "colliding_frame =
    \<lparr> index_len = 1,
      cols = [text_column ''a b'' [''u''], text_column ''a_b'' [''v''],
              text_column ''a_b_1'' [''w'']] \<rparr>"

definition null_text_frame :: frame where
  "null_text_frame = \<lparr> index_len = 2, cols = [text_column ''x'' ['' null'', ''null '']] \<rparr>"

definition spaced_frame :: frame where
  "spaced_frame = \<lparr> index_len = 2, cols = [text_column ''x'' [''a'', ''a '']] \<rparr>"

definition half_frame :: frame where
  "half_frame = \<lparr> index_len = 2, cols = [text_column ''x'' [''5'', ''x'']] \<rparr>"

definition mostly_frame :: frame where
  "mostly_frame = \<lparr> index_len = 3, cols = [text_column ''x'' [''5'', ''x'', ''1,000'']] \<rparr>"

definition yes_no_frame :: frame where
  "yes_no_frame = \<lparr> index_len = 2, cols = [text_column ''x'' [''yes'', ''no'']] \<rparr>"






section \<open>The fallback classifier: results\<close>



subsection \<open>Substrings and segments\<close>








subsection \<open>The classifier\<close>








lemma filter_data_no_filters:
  "0 < index_len df \<Longrightarrow> cols df \<noteq> [] \<Longrightarrow>
   filter_data df [] =
     Inr \<lparr> sender = ''ai'',
           rtext = ''Found '' @ str_of_nat (index_len df) @ '' matching records. Showing the first 20:'',
           data = Some (records_of df (names df) (take 20 [0..<index_len df])),
           chart = None \<rparr>"
  by (simp add: filter_data_def Let_def)

text \<open>
  Claim C10. The fallback classifier always returns the empty filters mapping. So when its
  intent reaches the filter handler (intent filter, no chart type found in the query) on a
  frame with at least one row and one column, the response counts every row of the frame
  and shows its first 20 rows; it is never the "no match" response. This holds whatever
  \<open>str.lower\<close> does.
\<close>

theorem fallback_filter_unfiltered:
  "filters (fallback_analysis lw q cs) = Some []
   \<and> (intent (fallback_analysis lw q cs) = Some ''filter''
        \<and> chart_type (fallback_analysis lw q cs) = None
        \<and> 0 < index_len df \<and> cols df \<noteq> []
      \<longrightarrow> execute_intent L df (fallback_analysis lw q cs) q =
            \<lparr> sender = ''ai'',
              rtext = ''Found '' @ str_of_nat (index_len df)
                @ '' matching records. Showing the first 20:'',
              data = Some (records_of df (names df) (take 20 [0..<index_len df])),
              chart = None \<rparr>)"
proof -
  have f: "filters (fallback_analysis lw q cs) = Some []"
    by (simp add: fallback_analysis_def Let_def)
  show ?thesis
    by (auto simp: f execute_intent_def dispatch_def Let_def truthy_def filter_data_no_filters)
qed

theorem fallback_filter_unfiltered_witness:
  "filters (fallback_analysis lower_ascii ''only east'' [''region'', ''sales'']) = Some []
   \<and> intent (fallback_analysis lower_ascii ''only east'' [''region'', ''sales'']) = Some ''filter''
   \<and> chart_type (fallback_analysis lower_ascii ''only east'' [''region'', ''sales'']) = None
   \<and> execute_intent failing_ops sales_frame
        (fallback_analysis lower_ascii ''only east'' [''region'', ''sales'']) ''only east'' =
      \<lparr> sender = ''ai'',
        rtext = ''Found 2 matching records. Showing the first 20:'',
        data = Some [[(''region'', Txt ''east''), (''sales'', Num 10)],
                     [(''region'', Txt ''west''), (''sales'', Num 20)]],
        chart = None \<rparr>"
proof -
  have a: "intent (fallback_analysis lower_ascii ''only east'' [''region'', ''sales'']) = Some ''filter''"
    by code_simp
  have b: "chart_type (fallback_analysis lower_ascii ''only east'' [''region'', ''sales'']) = None"
    by code_simp
  have c: "0 < index_len sales_frame \<and> cols sales_frame \<noteq> []"
    by code_simp
  have d: "str_of_nat (index_len sales_frame) = ''2''" by code_simp
  have e: "records_of sales_frame (names sales_frame) (take 20 [0..<index_len sales_frame])
           = [[(''region'', Txt ''east''), (''sales'', Num 10)],
              [(''region'', Txt ''west''), (''sales'', Num 20)]]" by code_simp
  from fallback_filter_unfiltered
    [of lower_ascii "''only east''" "[''region'', ''sales'']" sales_frame failing_ops]
    a b c d e
  show ?thesis by simp
qed

section \<open>The router and the visualization handler: results\<close>

lemma and_then_Inr: "and_then r f = Inr y \<longleftrightarrow> (\<exists>x. r = Inr x \<and> f x = Inr y)"
  by (cases r) (auto simp: and_then_def)

lemma and_then_Inl: "and_then r f = Inl e \<longleftrightarrow> (r = Inl e \<or> (\<exists>x. r = Inr x \<and> f x = Inl e))"
  by (cases r) (auto simp: and_then_def)

lemma create_visualization_answered:
  "create_visualization L df cs ct op = Inr r \<Longrightarrow> answered r"
  by (auto simp: create_visualization_def Let_def and_then_Inr answered_def split: prod.splits)

lemma perform_aggregation_answered:
  "perform_aggregation L df cs op = Inr r \<Longrightarrow> answered r"
  by (auto simp: perform_aggregation_def Let_def and_then_Inr answered_def split: if_splits)

lemma filter_data_answered: "filter_data df fs = Inr r \<Longrightarrow> answered r"
  by (auto simp: filter_data_def Let_def answered_def split: if_splits)

lemma compare_columns_answered: "compare_columns L df cs = Inr r \<Longrightarrow> answered r"
  by (auto simp: compare_columns_def Let_def and_then_Inr answered_def split: if_splits)

lemma find_correlations_answered: "find_correlations L df = Inr r \<Longrightarrow> answered r"
  by (auto simp: find_correlations_def Let_def answered_def split: if_splits)

lemma summarize_data_answered: "summarize_data L df cs = Inr r \<Longrightarrow> answered r"
  by (auto simp: summarize_data_def Let_def and_then_Inr answered_def)

lemma dispatch_answered: "dispatch L df i = Inr r \<Longrightarrow> answered r"
  unfolding dispatch_def Let_def
  by (auto split: if_splits
      dest: create_visualization_answered perform_aggregation_answered filter_data_answered
        compare_columns_answered find_correlations_answered summarize_data_answered)

text \<open>
  Claim C1. For every frame, every intent and every behaviour of the library, the router
  returns a response (it is a total function into responses, the exception of a handler
  being caught and turned into the apology text), and the text of that response is not
  empty.
\<close>

theorem execute_intent_always_answers:
  "sender (execute_intent L df i q) = ''ai''
   \<and> rtext (execute_intent L df i q) \<noteq> []
   \<and> (case dispatch L df i of
        Inr r \<Rightarrow> execute_intent L df i q = r
      | Inl e \<Rightarrow> execute_intent L df i q =
          \<lparr> sender = ''ai'',
            rtext = ''I encountered an error processing your request: '' @ str_of_error e
              @ ''. Could you please rephrase your question?'',
            data = None, chart = None \<rparr>)"
proof (cases "dispatch L df i")
  case (Inl e)
  then show ?thesis by (simp add: execute_intent_def)
next
  case (Inr r)
  then show ?thesis using dispatch_answered [OF Inr] by (simp add: execute_intent_def answered_def)
qed

theorem execute_intent_always_answers_witness:
  "dispatch failing_ops empty_frame visualize_intent
     = Inl (ValueError ''not enough values to unpack (expected 2, got 0)'')
   \<and> execute_intent failing_ops empty_frame visualize_intent ''plot it'' =
      \<lparr> sender = ''ai'',
        rtext = ''I encountered an error processing your request: not enough values to unpack (expected 2, got 0). Could you please rephrase your question?'',
        data = None, chart = None \<rparr>"
proof -
  have a: "dispatch failing_ops empty_frame visualize_intent
     = Inl (ValueError ''not enough values to unpack (expected 2, got 0)'')"
    by code_simp
  from execute_intent_always_answers [of failing_ops empty_frame visualize_intent "''plot it''"] a
  show ?thesis by simp
qed



text \<open>
  Claim C4 fails on the code: a non-empty chart type hint is never mapped, it is the type of
  the ChartSpec as it is. With the hint scatter, which the prompt of the model-based
  classifier offers, the visualization handler returns a ChartSpec of type scatter.
\<close>

theorem chart_hint_passes_through:
  "create_visualization L df cs (Some t) op = Inr r \<Longrightarrow> t \<noteq> [] \<Longrightarrow>
   \<exists>ch. chart r = Some ch \<and> spec_type ch = t"
  by (auto simp: create_visualization_def Let_def and_then_Inr split: prod.splits)

lemma scatter_eval:
  "create_visualization failing_ops xy_frame [''x'', ''y''] (Some ''scatter'') ''describe'' =
     Inr \<lparr> sender = ''ai'',
           rtext = ''Here's a scatter chart showing y by x. Showing up to 3 items.'',
           data = None,
           chart = Some \<lparr> spec_type = ''scatter'',
             spec_data = [[(''x'', Num 1), (''y'', Num 6)], [(''x'', Num 2), (''y'', Num 4)],
                          [(''x'', Num 3), (''y'', Num 2)]],
             x_axis = ''x'', y_axis = ''y'', title = Some ''y by x'' \<rparr> \<rparr>"
  by code_simp

theorem chart_hint_passes_through_witness:
  "create_visualization failing_ops xy_frame [''x'', ''y''] (Some ''scatter'') ''describe'' =
     Inr \<lparr> sender = ''ai'',
           rtext = ''Here's a scatter chart showing y by x. Showing up to 3 items.'',
           data = None,
           chart = Some \<lparr> spec_type = ''scatter'',
             spec_data = [[(''x'', Num 1), (''y'', Num 6)], [(''x'', Num 2), (''y'', Num 4)],
                          [(''x'', Num 3), (''y'', Num 2)]],
             x_axis = ''x'', y_axis = ''y'', title = Some ''y by x'' \<rparr> \<rparr>
   \<and> (\<exists>ch. chart (\<lparr> sender = ''ai'',
           rtext = ''Here's a scatter chart showing y by x. Showing up to 3 items.'',
           data = None,
           chart = Some \<lparr> spec_type = ''scatter'',
             spec_data = [[(''x'', Num 1), (''y'', Num 6)], [(''x'', Num 2), (''y'', Num 4)],
                          [(''x'', Num 3), (''y'', Num 2)]],
             x_axis = ''x'', y_axis = ''y'', title = Some ''y by x'' \<rparr> \<rparr>) = Some ch
        \<and> spec_type ch = ''scatter'')"
  using chart_hint_passes_through [OF scatter_eval] scatter_eval by simp

section \<open>The correlation handler: results\<close>




















section \<open>The compare handler: results\<close>













lemma and_then_InrE:
  assumes "and_then r f = Inr y"
  obtains x where "r = Inr x" "f x = Inr y"
  using assms by (cases r) (auto simp: and_then_def)











section \<open>The cleaner: column names\<close>

text \<open>
  Claim C2 fails on the code. The raw labels "a b", "a_b" and "a_b_1" are pairwise distinct;
  the first two normalize to a_b, the second occurrence is renamed a_b_1, and nothing
  checks that this label is already taken by the third column. The labels are then not
  distinct, \<open>df[col]\<close> selects two columns for a_b_1, and type inference raises: the cleaner
  returns no Dataset at all.
\<close>

theorem clean_names_collide:
  "names (clean_column_names colliding_frame) = [''a_b'', ''a_b_1'', ''a_b_1'']
   \<and> \<not> distinct (names (clean_column_names colliding_frame))
   \<and> handle_unnamed_columns colliding_frame = Inr colliding_frame
   \<and> clean_dataframe plain_lib colliding_frame
       = Inl (AttributeError ''a DataFrame where a Series is expected'')"
  by code_simp

section \<open>The cleaner: the column loop\<close>

lemma apply_cols_Nil [simp]: "apply_cols f ls [] = []"
  by (simp add: apply_cols_def)

lemma apply_cols_Cons:
  "apply_cols f ls (c # cs) =
     (if cname c \<in> set ls then (case f c of None \<Rightarrow> [] | Some c' \<Rightarrow> [c']) else [c])
       @ apply_cols f ls cs"
  by (simp add: apply_cols_def)

lemma apply_cols_no_labels [simp]: "apply_cols f [] cs = cs"
  by (induction cs) (simp_all add: apply_cols_Cons)

lemma filter_unique:
  "distinct (map cname cs) \<Longrightarrow> c \<in> set cs \<Longrightarrow> filter (\<lambda>x. cname x = cname c) cs = [c]"
proof (induction cs)
  case Nil
  then show ?case by simp
next
  case (Cons a cs)
  show ?case
  proof (cases "a = c")
    case True
    with Cons.prems have "cname c \<notin> cname ` set cs" by simp
    then have "\<forall>x\<in>set cs. cname x \<noteq> cname c" by (metis imageI)
    then have "filter (\<lambda>x. cname x = cname c) cs = []" by (simp add: filter_empty_conv)
    with True show ?thesis by simp
  next
    case False
    with Cons.prems have "c \<in> set cs" by simp
    with Cons.prems have "cname a \<noteq> cname c" by auto
    with Cons \<open>c \<in> set cs\<close> show ?thesis by simp
  qed
qed

lemma select_col_unique:
  assumes "distinct (names df)" and "l \<in> set (names df)"
  shows "\<exists>c. select_col df l = Inr c \<and> c \<in> set (cols df) \<and> cname c = l
            \<and> (\<forall>x\<in>set (cols df). cname x = l \<longrightarrow> x = c)"
proof -
  from assms(2) obtain c where c: "c \<in> set (cols df)" "cname c = l" by (auto simp: names_def)
  from assms(1) c(1) have f: "filter (\<lambda>x. cname x = cname c) (cols df) = [c]"
    unfolding names_def by (rule filter_unique)
  have u: "\<forall>x\<in>set (cols df). cname x = l \<longrightarrow> x = c"
  proof (intro ballI impI)
    fix x assume "x \<in> set (cols df)" "cname x = l"
    then have "x \<in> set (filter (\<lambda>x. cname x = cname c) (cols df))" using c(2) by simp
    with f show "x = c" by simp
  qed
  from f c(2) have "select_col df l = Inr c" by (simp add: select_col_def)
  with c u show ?thesis by blast
qed

lemma drop_as_apply:
  "\<forall>x\<in>set cs. cname x = l \<longrightarrow> f x = None \<Longrightarrow>
   filter (\<lambda>x. cname x \<noteq> l) cs = apply_cols f [l] cs"
  by (induction cs) (auto simp: apply_cols_Cons)

lemma assign_as_apply:
  "\<forall>x\<in>set cs. cname x = l \<longrightarrow> f x = Some c' \<Longrightarrow>
   map (\<lambda>x. if cname x = l then c' else x) cs = apply_cols f [l] cs"
  by (induction cs) (auto simp: apply_cols_Cons)

lemma apply_cols_step:
  assumes "\<And>c c'. f c = Some c' \<Longrightarrow> cname c' = cname c" and "l \<notin> set rest"
  shows "apply_cols f rest (apply_cols f [l] cs) = apply_cols f (l # rest) cs"
proof (induction cs)
  case Nil
  then show ?case by simp
next
  case (Cons c cs)
  show ?case
  proof (cases "cname c = l")
    case True
    show ?thesis
    proof (cases "f c")
      case None
      with True Cons show ?thesis by (simp add: apply_cols_Cons)
    next
      case (Some c')
      with assms(1) True have "cname c' = l" by auto
      with assms(2) have "cname c' \<notin> set rest" by simp
      with True Some Cons show ?thesis by (simp add: apply_cols_Cons)
    qed
  next
    case False
    with Cons show ?thesis by (simp add: apply_cols_Cons)
  qed
qed

lemma names_apply_cols_subset:
  assumes "\<And>c c'. f c = Some c' \<Longrightarrow> cname c' = cname c"
  shows "set (map cname (apply_cols f ls cs)) \<subseteq> set (map cname cs)"
proof (induction cs)
  case Nil
  then show ?case by simp
next
  case (Cons c cs)
  then show ?case using assms by (auto simp: apply_cols_Cons split: option.splits)
qed

lemma distinct_apply_cols:
  assumes "\<And>c c'. f c = Some c' \<Longrightarrow> cname c' = cname c" and "distinct (map cname cs)"
  shows "distinct (map cname (apply_cols f ls cs))"
  using assms(2)
proof (induction cs)
  case Nil
  then show ?case by simp
next
  case (Cons c cs)
  from Cons have d: "distinct (map cname (apply_cols f ls cs))" by simp
  from Cons.prems have "cname c \<notin> set (map cname cs)" by simp
  with names_apply_cols_subset [OF assms(1), where ls = ls and cs = cs]
  have n: "cname c \<notin> set (map cname (apply_cols f ls cs))" by blast
  show ?case
  proof (cases "cname c \<in> set ls")
    case False
    with d n show ?thesis by (simp add: apply_cols_Cons)
  next
    case True
    show ?thesis
    proof (cases "f c")
      case None
      with True d show ?thesis by (simp add: apply_cols_Cons)
    next
      case (Some c')
      with assms(1) have "cname c' = cname c" by simp
      with True Some d n show ?thesis by (simp add: apply_cols_Cons)
    qed
  qed
qed

lemma kept_apply_cols:
  "x \<in> set cs \<Longrightarrow> cname x \<notin> set ls \<Longrightarrow> x \<in> set (apply_cols f ls cs)"
  by (induction cs) (auto simp: apply_cols_Cons)

lemma col_loop_result:
  assumes pres: "\<And>c c'. f c = Some c' \<Longrightarrow> cname c' = cname c"
  shows "distinct (names df) \<Longrightarrow> distinct ls \<Longrightarrow> set ls \<subseteq> set (names df) \<Longrightarrow>
         col_loop f ls df = Inr (df\<lparr>cols := apply_cols f ls (cols df)\<rparr>)"
proof (induction ls arbitrary: df)
  case Nil
  then show ?case by simp
next
  case (Cons l rest)
  from Cons.prems have l: "l \<in> set (names df)" and lr: "l \<notin> set rest" and dr: "distinct rest"
    by auto
  from select_col_unique [OF Cons.prems(1) l] obtain c where
    sel: "select_col df l = Inr c" and c: "c \<in> set (cols df)" "cname c = l"
    and u: "\<forall>x\<in>set (cols df). cname x = l \<longrightarrow> x = c" by blast
  define df' where "df' = (case f c of None \<Rightarrow> drop_column df l | Some c' \<Rightarrow> assign_column df l c')"
  have cols': "cols df' = apply_cols f [l] (cols df)"
  proof (cases "f c")
    case None
    with u have "\<forall>x\<in>set (cols df). cname x = l \<longrightarrow> f x = None" by auto
    from drop_as_apply [OF this] None show ?thesis by (simp add: df'_def drop_column_def)
  next
    case (Some c')
    with u have "\<forall>x\<in>set (cols df). cname x = l \<longrightarrow> f x = Some c'" by auto
    from assign_as_apply [OF this] Some show ?thesis by (simp add: df'_def assign_column_def)
  qed
  have rest': "df'\<lparr>cols := apply_cols f rest (cols df')\<rparr> = df\<lparr>cols := apply_cols f (l # rest) (cols df)\<rparr>"
    unfolding cols'
    by (cases "f c") (simp_all add: df'_def drop_column_def assign_column_def apply_cols_step [OF pres lr])
  from Cons.prems(1) have "distinct (map cname (cols df))" by (simp add: names_def)
  from distinct_apply_cols [OF pres this, of f "[l]"] have d': "distinct (names df')"
    by (simp add: names_def cols')
  have s': "set rest \<subseteq> set (names df')"
  proof
    fix n assume n: "n \<in> set rest"
    with Cons.prems have "n \<in> set (names df)" by auto
    then obtain x where x: "x \<in> set (cols df)" "cname x = n" by (auto simp: names_def)
    from n lr have "n \<noteq> l" by auto
    with x have "cname x \<notin> set [l]" by simp
    from kept_apply_cols [OF x(1) this] have "x \<in> set (cols df')" by (simp add: cols')
    with x(2) show "n \<in> set (names df')" by (auto simp: names_def)
  qed
  from Cons.IH [OF d' dr s'] have "col_loop f rest df' = Inr (df'\<lparr>cols := apply_cols f rest (cols df')\<rparr>)" .
  with sel rest' show ?case by (simp add: df'_def)
qed

lemma select_col_count:
  "select_col df l = Inr c \<Longrightarrow> length (filter (\<lambda>n. n = l) (names df)) = 1"
proof -
  assume a: "select_col df l = Inr c"
  have "filter (\<lambda>x. cname x = l) (cols df) = [c]"
  proof (cases "filter (\<lambda>x. cname x = l) (cols df)")
    case Nil
    with a show ?thesis by (simp add: select_col_def)
  next
    case (Cons x xs)
    with a show ?thesis by (cases xs) (simp_all add: select_col_def)
  qed
  then have "length (filter ((\<lambda>n. n = l) \<circ> cname) (cols df)) = 1" by (simp add: comp_def)
  then show ?thesis by (simp add: names_def filter_map)
qed

lemma names_assign_column:
  "cname c' = l \<Longrightarrow> names (assign_column df l c') = names df"
proof -
  assume "cname c' = l"
  then have "map cname (map (\<lambda>c. if cname c = l then c' else c) cs) = map cname cs" for cs
    by (induction cs) auto
  then show ?thesis by (simp add: names_def assign_column_def)
qed

lemma col_loop_counts:
  assumes keep: "\<And>c. \<exists>c'. f c = Some c' \<and> cname c' = cname c"
  shows "col_loop f ls df = Inr out \<Longrightarrow>
         \<forall>l\<in>set ls. length (filter (\<lambda>n. n = l) (names df)) = 1"
proof (induction ls arbitrary: df)
  case Nil
  then show ?case by simp
next
  case (Cons l rest)
  from Cons.prems obtain c where sel: "select_col df l = Inr c"
    by (cases "select_col df l") auto
  then have cn: "cname c = l"
    by (auto simp: select_col_def split: list.splits dest: filter_eq_ConsD)
  from keep [of c] obtain c' where c': "f c = Some c'" "cname c' = cname c" by blast
  from Cons.prems sel c' have "col_loop f rest (assign_column df l c') = Inr out" by simp
  from Cons.IH [OF this] names_assign_column [of c' l df] c'(2) cn
  have "\<forall>l'\<in>set rest. length (filter (\<lambda>n. n = l') (names df)) = 1" by simp
  with select_col_count [OF sel] show ?case by simp
qed

lemma distinct_by_counts:
  "\<forall>l\<in>set xs. length (filter (\<lambda>n. n = l) xs) = 1 \<Longrightarrow> distinct xs"
proof (induction xs)
  case Nil
  then show ?case by simp
next
  case (Cons x xs)
  from Cons.prems have "length (filter (\<lambda>n. n = x) (x # xs)) = 1" by simp
  then have "filter (\<lambda>n. n = x) xs = []" by simp
  then have nx: "x \<notin> set xs" by (auto simp: filter_empty_conv)
  have "\<forall>l\<in>set xs. length (filter (\<lambda>n. n = l) xs) = 1"
  proof
    fix l assume l: "l \<in> set xs"
    with nx have "l \<noteq> x" by auto
    with Cons.prems l show "length (filter (\<lambda>n. n = l) xs) = 1" by auto
  qed
  with Cons.IH nx show ?case by simp
qed

lemma col_loop_labels_distinct:
  assumes "\<And>c. \<exists>c'. f c = Some c' \<and> cname c' = cname c"
    and "col_loop f (names df) df = Inr out"
  shows "distinct (names df)"
  using col_loop_counts [OF assms] by (rule distinct_by_counts)

section \<open>The cleaner: stage by stage\<close>

lemma wf_frame_iff: "wf_frame df \<longleftrightarrow> (\<forall>c\<in>set (cols df). length (cells c) = index_len df)"
  by (simp add: wf_frame_def list_all_iff)

subsection \<open>Stages 1 and 2 keep the cells\<close>

lemma unnamed_loop_cols:
  "unnamed_loop ls df new k = Inr (df', new') \<Longrightarrow>
   index_len df' = index_len df \<and> set (cols df') \<subseteq> set (cols df)"
proof (induction ls arbitrary: df new k)
  case Nil
  then show ?case by simp
next
  case (Cons l rest)
  show ?case
  proof (cases "py_in ''Unnamed'' l")
    case False
    with Cons.prems have "unnamed_loop rest df (new @ [l]) k = Inr (df', new')" by simp
    from Cons.IH [OF this] show ?thesis .
  next
    case True
    with Cons.prems obtain c where sel: "select_col df l = Inr c"
      by (cases "select_col df l") auto
    show ?thesis
    proof (cases "list_ex (\<lambda>v. v \<noteq> Null) (cells c)")
      case False
      with True sel Cons.prems
      have "unnamed_loop rest (drop_column df l) new k = Inr (df', new')" by simp
      from Cons.IH [OF this] show ?thesis by (auto simp: drop_column_def)
    next
      case has: True
      show ?thesis
      proof (cases "inferred_name (first_non_null (cells c))")
        case None
        with True sel has Cons.prems
        have "unnamed_loop rest df (new @ [''Column_'' @ str_of_nat (Suc k)]) (Suc k) = Inr (df', new')"
          by simp
        from Cons.IH [OF this] show ?thesis .
      next
        case (Some n)
        with True sel has Cons.prems
        have "unnamed_loop rest df (new @ [n]) k = Inr (df', new')" by simp
        from Cons.IH [OF this] show ?thesis .
      qed
    qed
  qed
qed

lemma set_names_columns:
  "c' \<in> set (cols (set_names df ns)) \<Longrightarrow>
   \<exists>c\<in>set (cols df). cells c' = cells c \<and> ctype c' = ctype c"
  by (auto simp: set_names_def dest: set_zip_leftD)

lemma index_len_set_names [simp]: "index_len (set_names df ns) = index_len df"
  by (simp add: set_names_def)

lemma wf_set_names: "wf_frame df \<Longrightarrow> wf_frame (set_names df ns)"
  unfolding wf_frame_iff using set_names_columns by fastforce

lemma handle_unnamed_wf:
  assumes "handle_unnamed_columns df = Inr df1" and "wf_frame df"
  shows "wf_frame df1 \<and> index_len df1 = index_len df"
proof -
  from assms(1) obtain df' new' where
    l: "unnamed_loop (names df) df [] 0 = Inr (df', new')"
    and r: "df1 = (if length new' = length (cols df') then set_names df' new' else df')"
    by (auto simp: handle_unnamed_columns_def split: sum.splits)
  from unnamed_loop_cols [OF l] have i: "index_len df' = index_len df"
    and s: "set (cols df') \<subseteq> set (cols df)" by auto
  from assms(2) s i have "wf_frame df'" unfolding wf_frame_iff by auto
  with r i show ?thesis by (auto intro: wf_set_names)
qed

lemma clean_column_names_wf:
  "wf_frame df \<Longrightarrow> wf_frame (clean_column_names df) \<and> index_len (clean_column_names df) = index_len df"
  by (simp add: clean_column_names_def wf_set_names)

subsection \<open>Stage 3: what the conversion of a column gives\<close>

lemma cname_boolean_attempt [simp]: "cname (boolean_attempt L c) = cname c"
  by (simp add: boolean_attempt_def Let_def)

lemma length_boolean_attempt [simp]: "length (cells (boolean_attempt L c)) = length (cells c)"
  by (simp add: boolean_attempt_def Let_def)

lemma ctype_boolean_attempt: "ctype c = Object \<Longrightarrow> ctype (boolean_attempt L c) \<noteq> Numeric"
  by (simp add: boolean_attempt_def Let_def)

lemma datetime_attempt_Some:
  "datetime_attempt L n c = Some c' \<Longrightarrow>
   cname c' = cname c \<and> ctype c' = Datetime \<and> length (cells c') = length (cells c)"
  by (auto simp: datetime_attempt_def Let_def split: if_splits option.splits)

lemma cname_convert_column [simp]: "cname (convert_column L n c) = cname c"
  by (auto simp: convert_column_def Let_def split: option.splits dest: datetime_attempt_Some)

lemma length_convert_column [simp]: "length (cells (convert_column L n c)) = length (cells c)"
  by (auto simp: convert_column_def Let_def split: option.splits dest: datetime_attempt_Some)

lemma convert_column_numeric_iff:
  "ctype c = Object \<Longrightarrow>
   ctype (convert_column L n c) = Numeric
     \<longleftrightarrow> n < 2 * count_parsed (map (numeric_parse L) (cells c))"
  by (auto simp: convert_column_def Let_def ctype_boolean_attempt
      split: option.splits dest: datetime_attempt_Some)

lemma convert_column_numeric:
  "ctype c = Object \<Longrightarrow> n < 2 * count_parsed (map (numeric_parse L) (cells c)) \<Longrightarrow>
   convert_column L n c =
     c\<lparr>ctype := Numeric, cells := map num_cell (map (numeric_parse L) (cells c))\<rparr>"
  by (simp add: convert_column_def Let_def)

lemma convert_column_other: "ctype c \<noteq> Object \<Longrightarrow> convert_column L n c = c"
  by (simp add: convert_column_def)

lemma apply_cols_all:
  "\<forall>c\<in>set cs. cname c \<in> set ls \<Longrightarrow> apply_cols (\<lambda>c. Some (g c)) ls cs = map g cs"
  by (induction cs) (simp_all add: apply_cols_Cons)

lemma detect_types_result:
  assumes "detect_and_convert_types L df = Inr out"
  shows "distinct (names df)
    \<and> out = df\<lparr>cols := map (convert_column L (index_len df)) (cols df)\<rparr>"
proof -
  let ?f = "\<lambda>c. Some (convert_column L (index_len df) c)"
  have keep: "\<And>c. \<exists>c'. ?f c = Some c' \<and> cname c' = cname c" by simp
  from assms have loop: "col_loop ?f (names df) df = Inr out"
    by (simp add: detect_and_convert_types_def)
  from col_loop_labels_distinct [of ?f df out, OF keep loop] have d: "distinct (names df)" .
  have pres: "\<And>c c'. ?f c = Some c' \<Longrightarrow> cname c' = cname c" by auto
  from col_loop_result [of ?f df "names df", OF pres d d] loop
  have "out = df\<lparr>cols := apply_cols ?f (names df) (cols df)\<rparr>" by simp
  moreover have "apply_cols ?f (names df) (cols df)
      = map (convert_column L (index_len df)) (cols df)"
    by (rule apply_cols_all) (simp add: names_def)
  ultimately show ?thesis using d by simp
qed

lemma detect_types_wf:
  assumes "detect_and_convert_types L df = Inr out" and "wf_frame df"
  shows "wf_frame out \<and> index_len out = index_len df \<and> names out = names df
         \<and> distinct (names out)"
proof -
  from detect_types_result [OF assms(1)] have d: "distinct (names df)"
    and o: "out = df\<lparr>cols := map (convert_column L (index_len df)) (cols df)\<rparr>" by auto
  from o have n: "names out = names df" by (simp add: names_def comp_def)
  from o assms(2) have "wf_frame out" unfolding wf_frame_iff by auto
  with o n d show ?thesis by simp
qed

section \<open>The cleaner: missing values and duplicate rows\<close>

subsection \<open>Stage 4: columns\<close>

lemma null_count_le: "null_count vs \<le> length vs"
  by (simp add: null_count_def)

lemma null_count_less_has_value:
  "null_count vs < length vs \<Longrightarrow> \<exists>v\<in>set vs. v \<noteq> Null"
proof (rule ccontr)
  assume a: "null_count vs < length vs" and "\<not> (\<exists>v\<in>set vs. v \<noteq> Null)"
  then have "filter (\<lambda>v. v = Null) vs = vs" by (simp add: filter_id_conv)
  then have "null_count vs = length vs" by (simp add: null_count_def)
  with a show False by simp
qed

lemma fillna_has_value: "\<exists>v\<in>set vs. v \<noteq> Null \<Longrightarrow> \<exists>v\<in>set (fillna x vs). v \<noteq> Null"
  by (auto simp: fillna_def)

lemma length_fillna [simp]: "length (fillna x vs) = length vs"
  by (simp add: fillna_def)

lemma handle_missing_column_Some:
  assumes "handle_missing_column L n c = Some c'"
  shows "cname c' = cname c \<and> ctype c' = ctype c \<and> length (cells c') = length (cells c)
         \<and> (length (cells c) = n \<longrightarrow> (\<exists>v\<in>set (cells c'). v \<noteq> Null))"
proof -
  from assms have k: "null_count (cells c) \<noteq> n"
    by (auto simp: handle_missing_column_def Let_def split: if_splits)
  have hv: "\<exists>v\<in>set (cells c). v \<noteq> Null" if "length (cells c) = n"
  proof -
    from that k null_count_le [of "cells c"] have "null_count (cells c) < length (cells c)" by simp
    then show ?thesis by (rule null_count_less_has_value)
  qed
  from assms consider "c' = c"
    | x where "c' = c\<lparr>cells := fillna x (cells c)\<rparr>"
    by (auto simp: handle_missing_column_def Let_def split: if_splits)
  then show ?thesis
  proof cases
    case 1
    with hv show ?thesis by simp
  next
    case 2
    with hv fillna_has_value [of "cells c" x] show ?thesis by simp
  qed
qed

lemma handle_missing_numeric:
  assumes "ctype c = Numeric" and "length (cells c) = n" and "2 * null_count (cells c) < n"
  shows "\<exists>c'. handle_missing_column L n c = Some c' \<and> cname c' = cname c \<and> ctype c' = Numeric"
proof -
  from assms have "null_count (cells c) \<noteq> n" "\<not> 9 * n < 10 * null_count (cells c)" by auto
  with assms show ?thesis
    by (simp add: handle_missing_column_def Let_def is_numeric_dtype_def)
qed

lemma mem_apply_cols:
  "c' \<in> set (apply_cols f ls cs) \<longleftrightarrow>
     (\<exists>c\<in>set cs. (cname c \<in> set ls \<and> f c = Some c') \<or> (cname c \<notin> set ls \<and> c' = c))"
  by (induction cs) (auto simp: apply_cols_Cons split: option.splits)

subsection \<open>Selecting rows\<close>

lemma cols_take_rows:
  "cols (take_rows df idx) = map (\<lambda>c. c\<lparr>cells := map (\<lambda>i. cells c ! i) idx\<rparr>) (cols df)"
  by (simp add: take_rows_def)

lemma wf_take_rows: "wf_frame (take_rows df idx)"
  by (simp add: wf_frame_iff take_rows_def)

lemma names_take_rows [simp]: "names (take_rows df idx) = names df"
  by (simp add: names_def take_rows_def comp_def)

lemma take_rows_column:
  "c' \<in> set (cols (take_rows df idx)) \<longleftrightarrow>
     (\<exists>c\<in>set (cols df). c' = c\<lparr>cells := map (\<lambda>i. cells c ! i) idx\<rparr>)"
  by (auto simp: cols_take_rows)

lemma take_rows_has_value:
  assumes "c \<in> set (cols df)" and "i \<in> set idx" and "cells c ! i \<noteq> Null"
  shows "\<exists>v\<in>set (cells (c\<lparr>cells := map (\<lambda>i. cells c ! i) idx\<rparr>)). v \<noteq> Null"
  using assms by auto

lemma has_value_nth: "\<exists>v\<in>set vs. v \<noteq> Null \<Longrightarrow> \<exists>i<length vs. vs ! i \<noteq> Null"
  by (metis in_set_conv_nth)

lemma row_cells_component:
  "c \<in> set (cols df) \<Longrightarrow> row_cells df i = row_cells df j \<Longrightarrow> cells c ! i = cells c ! j"
proof -
  assume c: "c \<in> set (cols df)" and r: "row_cells df i = row_cells df j"
  from c obtain k where k: "k < length (cols df)" "cols df ! k = c" by (auto simp: in_set_conv_nth)
  from r have "row_cells df i ! k = row_cells df j ! k" by simp
  with k show ?thesis by (simp add: row_cells_def)
qed

lemma dropna_all_has_value:
  assumes wf: "wf_frame df" and all: "\<forall>c\<in>set (cols df). \<exists>v\<in>set (cells c). v \<noteq> Null"
    and c': "c' \<in> set (cols (dropna_all df))"
  shows "\<exists>v\<in>set (cells c'). v \<noteq> Null"
proof -
  let ?idx = "filter (\<lambda>i. list_ex (\<lambda>v. v \<noteq> Null) (row_cells df i)) [0..<index_len df]"
  from c' obtain c where c: "c \<in> set (cols df)" and e: "c' = c\<lparr>cells := map (\<lambda>i. cells c ! i) ?idx\<rparr>"
    by (auto simp: dropna_all_def take_rows_column)
  from all c have "\<exists>v\<in>set (cells c). v \<noteq> Null" by blast
  from has_value_nth [OF this] obtain i where i: "i < length (cells c)" "cells c ! i \<noteq> Null" by blast
  from wf c i(1) have il: "i < index_len df" by (simp add: wf_frame_iff)
  from c i(2) have "cells c ! i \<in> set (row_cells df i)" by (auto simp: row_cells_def)
  with i(2) have "list_ex (\<lambda>v. v \<noteq> Null) (row_cells df i)" by (auto simp: list_ex_iff)
  with il have "i \<in> set ?idx" by simp
  from take_rows_has_value [OF c this i(2)] show ?thesis unfolding e .
qed

lemma first_occurrence:
  fixes r :: "nat \<Rightarrow> 'a"
  shows "\<exists>j\<le>i. r j = r i \<and> r j \<notin> set (map r [0..<j])"
proof (induction i rule: less_induct)
  case (less i)
  show ?case
  proof (cases "r i \<in> set (map r [0..<i])")
    case False
    then show ?thesis by blast
  next
    case True
    then obtain k where k: "k < i" "r k = r i" by auto
    from less [OF k(1)] obtain j where "j \<le> k" "r j = r k" "r j \<notin> set (map r [0..<j])" by blast
    with k show ?thesis by (intro exI [of _ j]) auto
  qed
qed

lemma remove_duplicate_rows_has_value:
  assumes wf: "wf_frame df" and all: "\<forall>c\<in>set (cols df). \<exists>v\<in>set (cells c). v \<noteq> Null"
    and c': "c' \<in> set (cols (remove_duplicate_rows df))"
  shows "\<exists>v\<in>set (cells c'). v \<noteq> Null"
proof (cases "cols df = [] \<or> index_len df = 0")
  case True
  with c' all show ?thesis by (auto simp: remove_duplicate_rows_def)
next
  case False
  let ?idx = "filter (\<lambda>i. row_cells df i \<notin> set (map (row_cells df) [0..<i])) [0..<index_len df]"
  from False c' obtain c where c: "c \<in> set (cols df)"
    and e: "c' = c\<lparr>cells := map (\<lambda>i. cells c ! i) ?idx\<rparr>"
    by (auto simp: remove_duplicate_rows_def take_rows_column)
  from all c have "\<exists>v\<in>set (cells c). v \<noteq> Null" by blast
  from has_value_nth [OF this] obtain i where i: "i < length (cells c)" "cells c ! i \<noteq> Null" by blast
  from wf c i(1) have il: "i < index_len df" by (simp add: wf_frame_iff)
  from first_occurrence [where r = "row_cells df" and i = i] obtain j where
    j: "j \<le> i" "row_cells df j = row_cells df i" "row_cells df j \<notin> set (map (row_cells df) [0..<j])"
    by blast
  from j(1) il j(3) have jm: "j \<in> set ?idx" by simp
  from row_cells_component [OF c j(2)] i(2) have nn: "cells c ! j \<noteq> Null" by simp
  from take_rows_has_value [OF c jm nn] show ?thesis unfolding e .
qed

lemma wf_remove_duplicate_rows: "wf_frame df \<Longrightarrow> wf_frame (remove_duplicate_rows df)"
  by (simp add: remove_duplicate_rows_def wf_take_rows)

lemma wf_dropna_all: "wf_frame (dropna_all df)"
  by (simp add: dropna_all_def wf_take_rows)

subsection \<open>Stages 4 to 6 when the labels are distinct\<close>

lemma handle_missing_pres:
  "handle_missing_column L n c = Some c' \<Longrightarrow> cname c' = cname c"
  using handle_missing_column_Some by blast

lemma names_cols_update [simp]: "names (df\<lparr>cols := cs\<rparr>) = map cname cs"
  by (simp add: names_def)

lemma stage4_result:
  assumes "distinct (names df3)"
  shows "handle_missing_values L df3 =
    Inr (dropna_all (df3\<lparr>cols := apply_cols (handle_missing_column L (index_len df3))
                                (names df3) (cols df3)\<rparr>))"
proof -
  have "col_loop (handle_missing_column L (index_len df3)) (names df3) df3 =
      Inr (df3\<lparr>cols := apply_cols (handle_missing_column L (index_len df3)) (names df3) (cols df3)\<rparr>)"
    by (rule col_loop_result [OF handle_missing_pres assms assms]) simp_all
  then show ?thesis by (simp add: handle_missing_values_def)
qed

lemma names_dropna_all [simp]: "names (dropna_all df) = names df"
  by (simp add: dropna_all_def)

lemma names_remove_duplicate_rows [simp]: "names (remove_duplicate_rows df) = names df"
  by (simp add: remove_duplicate_rows_def)

lemma standardize_pres: "standardize_column L c = Some c' \<Longrightarrow> cname c' = cname c"
  by (auto simp: standardize_column_def Let_def)

lemma stage6_result:
  assumes "distinct (names df5)"
  shows "standardize_text_columns L df5 =
    Inr (df5\<lparr>cols := apply_cols (standardize_column L)
                       (map cname (filter (\<lambda>c. ctype c = Object) (cols df5))) (cols df5)\<rparr>)"
  unfolding standardize_text_columns_def
proof (rule col_loop_result [OF standardize_pres assms])
  from assms show "distinct (map cname (filter (\<lambda>c. ctype c = Object) (cols df5)))"
    unfolding names_def by (rule distinct_map_filter)
  show "set (map cname (filter (\<lambda>c. ctype c = Object) (cols df5))) \<subseteq> set (names df5)"
    by (auto simp: names_def)
qed simp

lemma object_label_iff:
  assumes "distinct (map cname cs)" and "c \<in> set cs"
  shows "cname c \<in> set (map cname (filter (\<lambda>c. ctype c = Object) cs)) \<longleftrightarrow> ctype c = Object"
proof
  assume "cname c \<in> set (map cname (filter (\<lambda>c. ctype c = Object) cs))"
  then obtain x where x: "x \<in> set cs" "ctype x = Object" "cname x = cname c" by auto
  from assms(1) x(1) assms(2) x(3) have "x = c" by (auto simp: distinct_map inj_on_def)
  with x(2) show "ctype c = Object" by simp
next
  assume "ctype c = Object"
  with assms(2) show "cname c \<in> set (map cname (filter (\<lambda>c. ctype c = Object) cs))" by auto
qed

lemma stage6_columns:
  assumes "distinct (names df5)"
    and "standardize_text_columns L df5 = Inr out"
  shows "c' \<in> set (cols out) \<longleftrightarrow>
    (\<exists>c\<in>set (cols df5).
       (ctype c = Object \<and> standardize_column L c = Some c')
       \<or> (ctype c \<noteq> Object \<and> c' = c))"
proof -
  from assms(1) have d: "distinct (map cname (cols df5))" by (simp add: names_def)
  from stage6_result [OF assms(1), of L] assms(2)
  have o: "cols out = apply_cols (standardize_column L)
              (map cname (filter (\<lambda>c. ctype c = Object) (cols df5))) (cols df5)"
    by auto
  have e: "(cname c \<in> set (map cname (filter (\<lambda>c. ctype c = Object) (cols df5)))
          \<and> standardize_column L c = Some c'
        \<or> cname c \<notin> set (map cname (filter (\<lambda>c. ctype c = Object) (cols df5))) \<and> c' = c)
      \<longleftrightarrow> (ctype c = Object \<and> standardize_column L c = Some c'
           \<or> ctype c \<noteq> Object \<and> c' = c)"
    if "c \<in> set (cols df5)" for c
    unfolding object_label_iff [OF d that] ..
  show ?thesis
    unfolding o mem_apply_cols by (rule bex_cong [OF refl e])
qed

lemma standardize_column_cells:
  "standardize_column L c = Some c' \<Longrightarrow>
   cname c' = cname c \<and> cells c' = map (standardize_cell L) (cells c)"
  by (auto simp: standardize_column_def Let_def)

lemma stage4_columns:
  assumes wf: "wf_frame df3"
    and c': "c' \<in> set (apply_cols (handle_missing_column L (index_len df3)) (names df3) (cols df3))"
  shows "(\<exists>v\<in>set (cells c'). v \<noteq> Null) \<and> length (cells c') = index_len df3"
proof -
  from c' obtain c where c: "c \<in> set (cols df3)"
    and h: "handle_missing_column L (index_len df3) c = Some c'"
    unfolding mem_apply_cols by (auto simp: names_def)
  from wf c have l: "length (cells c) = index_len df3" by (simp add: wf_frame_iff)
  from handle_missing_column_Some [OF h] l show ?thesis by simp
qed

lemma before_text_has_values:
  assumes d: "distinct (names df3)" and wf: "wf_frame df3"
    and h: "handle_missing_values L df3 = Inr df4"
  shows "wf_frame (remove_duplicate_rows df4) \<and> distinct (names (remove_duplicate_rows df4))
    \<and> (\<forall>c\<in>set (cols (remove_duplicate_rows df4)). \<exists>v\<in>set (cells c). v \<noteq> Null)"
proof -
  let ?A = "df3\<lparr>cols := apply_cols (handle_missing_column L (index_len df3)) (names df3) (cols df3)\<rparr>"
  from stage4_result [OF d, of L] h have e: "df4 = dropna_all ?A" by simp
  have wfA: "wf_frame ?A"
    unfolding wf_frame_iff using stage4_columns [OF wf] by simp
  have allA: "\<forall>c\<in>set (cols ?A). \<exists>v\<in>set (cells c). v \<noteq> Null"
    using stage4_columns [OF wf] by simp
  have dA: "distinct (names ?A)"
    using distinct_apply_cols [where f = "handle_missing_column L (index_len df3)"
        and cs = "cols df3" and ls = "names df3", OF handle_missing_pres] d
    by (simp add: names_def)
  have all4: "\<forall>c\<in>set (cols df4). \<exists>v\<in>set (cells c). v \<noteq> Null"
    unfolding e using dropna_all_has_value [OF wfA allA] by blast
  have wf4: "wf_frame df4" unfolding e by (rule wf_dropna_all)
  have d4: "distinct (names df4)" unfolding e using dA by simp
  from remove_duplicate_rows_has_value [OF wf4 all4] wf_remove_duplicate_rows [OF wf4] d4
  show ?thesis by auto
qed

section \<open>The cleaner: what the pipeline guarantees\<close>

lemma clean_dataframe_stages:
  assumes "clean_dataframe L raw = Inr out"
  obtains df1 df3 df4 where "handle_unnamed_columns raw = Inr df1"
    and "detect_and_convert_types L (clean_column_names df1) = Inr df3"
    and "handle_missing_values L df3 = Inr df4"
    and "standardize_text_columns L (remove_duplicate_rows df4) = Inr out"
proof -
  from assms obtain df1 where 1: "handle_unnamed_columns raw = Inr df1"
    and r1: "and_then (detect_and_convert_types L (clean_column_names df1)) (\<lambda>df3.
      and_then (handle_missing_values L df3) (\<lambda>df4.
      standardize_text_columns L (remove_duplicate_rows df4))) = Inr out"
    unfolding clean_dataframe_def by (rule and_then_InrE)
  from r1 obtain df3 where 3: "detect_and_convert_types L (clean_column_names df1) = Inr df3"
    and r3: "and_then (handle_missing_values L df3) (\<lambda>df4.
      standardize_text_columns L (remove_duplicate_rows df4)) = Inr out"
    by (rule and_then_InrE)
  from r3 obtain df4 where 4: "handle_missing_values L df3 = Inr df4"
    and 6: "standardize_text_columns L (remove_duplicate_rows df4) = Inr out"
    by (rule and_then_InrE)
  from 1 3 4 6 show thesis by (rule that)
qed

lemma clean_before_text_stages:
  assumes "handle_unnamed_columns raw = Inr df1"
    and "detect_and_convert_types L (clean_column_names df1) = Inr df3"
    and "handle_missing_values L df3 = Inr df4"
  shows "clean_before_text L raw = Inr (remove_duplicate_rows df4)"
  by (simp add: clean_before_text_def assms and_then_Inr)

lemma named_frame_wf:
  assumes "wf_frame raw" and "handle_unnamed_columns raw = Inr df1"
  shows "wf_frame (clean_column_names df1) \<and> index_len (clean_column_names df1) = index_len raw"
  using handle_unnamed_wf [OF assms(2, 1)] clean_column_names_wf [of df1] by simp

lemma all_null_standardized:
  assumes "\<forall>v\<in>set (map f vs). v = Null"
  shows "\<forall>v\<in>set vs. f v = Null"
  using assms by simp

text \<open>
  Claim C3, amended. For every raw table for which the cleaner returns: every column of the
  frame handed to text standardization (after the missing values and the duplicate rows
  have been dealt with) holds a value that is not missing. A column of the returned frame
  is one of those, unchanged when it is not a text column and with each value standardized
  when it is. So a column of the returned frame is entirely missing only when it comes from
  a text column that held values, each of which text standardization has mapped to the
  missing marker.
\<close>

theorem clean_columns_have_values:
  assumes wf: "wf_frame raw" and cl: "clean_dataframe L raw = Inr out"
  shows "\<exists>df5. clean_before_text L raw = Inr df5
      \<and> standardize_text_columns L df5 = Inr out
      \<and> (\<forall>c\<in>set (cols df5). \<exists>v\<in>set (cells c). v \<noteq> Null)
      \<and> (\<forall>c'\<in>set (cols out). \<exists>c\<in>set (cols df5).
            cname c' = cname c
            \<and> (if ctype c = Object then cells c' = map (standardize_cell L) (cells c)
               else c' = c))
      \<and> (\<forall>c'\<in>set (cols out). (\<forall>v\<in>set (cells c'). v = Null) \<longrightarrow>
            (\<exists>c\<in>set (cols df5). cname c = cname c' \<and> ctype c = Object
               \<and> (\<exists>v\<in>set (cells c). v \<noteq> Null)
               \<and> (\<forall>v\<in>set (cells c). standardize_cell L v = Null)))"
proof -
  from cl obtain df1 df3 df4 where 1: "handle_unnamed_columns raw = Inr df1"
    and 3: "detect_and_convert_types L (clean_column_names df1) = Inr df3"
    and 4: "handle_missing_values L df3 = Inr df4"
    and 6: "standardize_text_columns L (remove_duplicate_rows df4) = Inr out"
    by (rule clean_dataframe_stages)
  let ?df5 = "remove_duplicate_rows df4"
  from named_frame_wf [OF wf 1] have wfn: "wf_frame (clean_column_names df1)" by simp
  from detect_types_wf [OF 3 wfn] have wf3: "wf_frame df3" and d3: "distinct (names df3)" by blast+
  from before_text_has_values [OF d3 wf3 4]
  have d5: "distinct (names ?df5)"
    and v5: "\<forall>c\<in>set (cols ?df5). \<exists>v\<in>set (cells c). v \<noteq> Null" by simp_all
  have b: "clean_before_text L raw = Inr ?df5" by (rule clean_before_text_stages [OF 1 3 4])
  have o: "\<exists>c\<in>set (cols ?df5). cname c' = cname c
            \<and> (if ctype c = Object then cells c' = map (standardize_cell L) (cells c) else c' = c)"
    if "c' \<in> set (cols out)" for c'
  proof -
    from that stage6_columns [OF d5 6, of c'] obtain c where c: "c \<in> set (cols ?df5)"
      and e: "ctype c = Object \<and> standardize_column L c = Some c' \<or> ctype c \<noteq> Object \<and> c' = c"
      by blast
    from e have "cname c' = cname c
        \<and> (if ctype c = Object then cells c' = map (standardize_cell L) (cells c) else c' = c)"
      by (auto dest: standardize_column_cells)
    with c show ?thesis by blast
  qed
  have n: "\<exists>c\<in>set (cols ?df5). cname c = cname c' \<and> ctype c = Object
               \<and> (\<exists>v\<in>set (cells c). v \<noteq> Null)
               \<and> (\<forall>v\<in>set (cells c). standardize_cell L v = Null)"
    if m: "c' \<in> set (cols out)" and a: "\<forall>v\<in>set (cells c'). v = Null" for c'
  proof -
    from o [OF m] obtain c where c: "c \<in> set (cols ?df5)" and nm: "cname c' = cname c"
      and e: "if ctype c = Object then cells c' = map (standardize_cell L) (cells c) else c' = c"
      by blast
    from v5 c have hv: "\<exists>v\<in>set (cells c). v \<noteq> Null" by blast
    show ?thesis
    proof (cases "ctype c = Object")
      case True
      with e have "cells c' = map (standardize_cell L) (cells c)" by simp
      with a have "\<forall>v\<in>set (cells c). standardize_cell L v = Null" by simp
      with c nm True hv show ?thesis by auto
    next
      case False
      with e have "c' = c" by simp
      with a hv show ?thesis by blast
    qed
  qed
  from b 6 v5 o n show ?thesis by blast
qed

theorem clean_columns_have_values_witness:
  "wf_frame null_text_frame
   \<and> clean_dataframe plain_lib null_text_frame =
       Inr \<lparr> index_len = 2, cols = [\<lparr> cname = ''x'', ctype = Numeric, cells = [Null, Null] \<rparr>] \<rparr>
   \<and> (\<exists>df5. clean_before_text plain_lib null_text_frame = Inr df5
      \<and> standardize_text_columns plain_lib df5 =
          Inr \<lparr> index_len = 2, cols = [\<lparr> cname = ''x'', ctype = Numeric, cells = [Null, Null] \<rparr>] \<rparr>
      \<and> (\<forall>c\<in>set (cols df5). \<exists>v\<in>set (cells c). v \<noteq> Null)
      \<and> (\<forall>c'\<in>set (cols \<lparr> index_len = 2,
                cols = [\<lparr> cname = ''x'', ctype = Numeric, cells = [Null, Null] \<rparr>] \<rparr>).
            \<exists>c\<in>set (cols df5).
            cname c' = cname c
            \<and> (if ctype c = Object then cells c' = map (standardize_cell plain_lib) (cells c)
               else c' = c))
      \<and> (\<forall>c'\<in>set (cols \<lparr> index_len = 2,
                cols = [\<lparr> cname = ''x'', ctype = Numeric, cells = [Null, Null] \<rparr>] \<rparr>).
            (\<forall>v\<in>set (cells c'). v = Null) \<longrightarrow>
            (\<exists>c\<in>set (cols df5). cname c = cname c' \<and> ctype c = Object
               \<and> (\<exists>v\<in>set (cells c). v \<noteq> Null)
               \<and> (\<forall>v\<in>set (cells c). standardize_cell plain_lib v = Null))))"
proof -
  have a: "wf_frame null_text_frame" by code_simp
  have b: "clean_dataframe plain_lib null_text_frame =
       Inr \<lparr> index_len = 2, cols = [\<lparr> cname = ''x'', ctype = Numeric, cells = [Null, Null] \<rparr>] \<rparr>"
    by code_simp
  from a b clean_columns_have_values [OF a b] show ?thesis by (intro conjI)
qed

text \<open>
  The claim as worded fails: a text column holding \<open>" null"\<close> and \<open>"null "\<close> has no missing
  value when the missing values are resolved, and text standardization then maps both
  values to the missing marker. The returned frame has a column that is entirely missing.
\<close>

theorem clean_null_column_counterexample:
  "null_text_frame =
     \<lparr> index_len = 2, cols = [\<lparr> cname = ''x'', ctype = Object,
                                 cells = [Txt '' null'', Txt ''null ''] \<rparr>] \<rparr>
   \<and> clean_dataframe plain_lib null_text_frame =
     Inr \<lparr> index_len = 2, cols = [\<lparr> cname = ''x'', ctype = Numeric, cells = [Null, Null] \<rparr>] \<rparr>"
  by code_simp

subsection \<open>The numeric threshold\<close>

lemma count_parsed_le: "count_parsed xs \<le> length xs"
  by (simp add: count_parsed_def)

lemma null_count_num_cells:
  "null_count (map num_cell xs) + count_parsed xs = length xs"
proof (induction xs)
  case Nil
  then show ?case by (simp add: null_count_def count_parsed_def)
next
  case (Cons x xs)
  then show ?case
    by (cases x) (simp_all add: null_count_def count_parsed_def num_cell_def)
qed

lemma take_rows_forward:
  "c \<in> set (cols df) \<Longrightarrow>
   \<exists>c'\<in>set (cols (take_rows df idx)). cname c' = cname c \<and> ctype c' = ctype c"
proof -
  assume c: "c \<in> set (cols df)"
  let ?c' = "c\<lparr>cells := map (\<lambda>i. cells c ! i) idx\<rparr>"
  from c have "?c' \<in> set (cols (take_rows df idx))"
    unfolding take_rows_column by (rule bexI [of _ c, OF refl])
  moreover have "cname ?c' = cname c \<and> ctype ?c' = ctype c" by simp
  ultimately show ?thesis by (rule bexI [rotated])
qed

lemma take_rows_backward:
  "c' \<in> set (cols (take_rows df idx)) \<Longrightarrow>
   \<exists>c\<in>set (cols df). cname c = cname c' \<and> ctype c = ctype c'"
  unfolding take_rows_column by auto

lemma rows_forward:
  assumes "c \<in> set (cols df)"
  shows "\<exists>c'\<in>set (cols (remove_duplicate_rows (dropna_all df))). cname c' = cname c \<and> ctype c' = ctype c"
proof -
  from take_rows_forward [OF assms] obtain a where a: "a \<in> set (cols (dropna_all df))"
    "cname a = cname c" "ctype a = ctype c"
    unfolding dropna_all_def by blast
  show ?thesis
  proof (cases "cols (dropna_all df) = [] \<or> index_len (dropna_all df) = 0")
    case True
    with a show ?thesis by (auto simp: remove_duplicate_rows_def)
  next
    case False
    from take_rows_forward [OF a(1)] a(2, 3) False show ?thesis
      by (simp add: remove_duplicate_rows_def)
  qed
qed

lemma rows_backward:
  assumes "c' \<in> set (cols (remove_duplicate_rows (dropna_all df)))"
  shows "\<exists>c\<in>set (cols df). cname c = cname c' \<and> ctype c = ctype c'"
proof -
  have "\<exists>a\<in>set (cols (dropna_all df)). cname a = cname c' \<and> ctype a = ctype c'"
  proof (cases "cols (dropna_all df) = [] \<or> index_len (dropna_all df) = 0")
    case True
    with assms show ?thesis by (auto simp: remove_duplicate_rows_def)
  next
    case False
    with assms show ?thesis by (simp add: remove_duplicate_rows_def take_rows_backward)
  qed
  then obtain a where a: "a \<in> set (cols (dropna_all df))" "cname a = cname c'" "ctype a = ctype c'"
    by blast
  from a(1) take_rows_backward [of a df] a(2, 3) show ?thesis
    unfolding dropna_all_def by auto
qed

lemma stage4_forward_numeric:
  assumes d: "distinct (names df3)" and wf: "wf_frame df3"
    and c3: "c3 \<in> set (cols df3)" and t: "ctype c3 = Numeric"
    and k: "2 * null_count (cells c3) < index_len df3"
    and h: "handle_missing_values L df3 = Inr df4"
  shows "\<exists>c5\<in>set (cols (remove_duplicate_rows df4)). cname c5 = cname c3 \<and> ctype c5 = Numeric"
proof -
  let ?A = "df3\<lparr>cols := apply_cols (handle_missing_column L (index_len df3)) (names df3) (cols df3)\<rparr>"
  from stage4_result [OF d, of L] h have e: "df4 = dropna_all ?A" by simp
  from wf c3 have l: "length (cells c3) = index_len df3" by (simp add: wf_frame_iff)
  from handle_missing_numeric [OF t l k, of L] obtain c4 where
    c4: "handle_missing_column L (index_len df3) c3 = Some c4" "cname c4 = cname c3" "ctype c4 = Numeric"
    by blast
  from c3 have "cname c3 \<in> set (names df3)" by (simp add: names_def)
  with c3 c4(1) have "c4 \<in> set (cols ?A)" by (auto simp: mem_apply_cols)
  from rows_forward [OF this] c4(2, 3) show ?thesis unfolding e by simp
qed

lemma stage4_backward:
  assumes d: "distinct (names df3)"
    and h: "handle_missing_values L df3 = Inr df4"
    and c5: "c5 \<in> set (cols (remove_duplicate_rows df4))"
  shows "\<exists>c3\<in>set (cols df3). cname c3 = cname c5 \<and> ctype c3 = ctype c5"
proof -
  let ?A = "df3\<lparr>cols := apply_cols (handle_missing_column L (index_len df3)) (names df3) (cols df3)\<rparr>"
  from stage4_result [OF d, of L] h have e: "df4 = dropna_all ?A" by simp
  from rows_backward [OF c5 [unfolded e]] obtain c4 where
    c4: "c4 \<in> set (cols ?A)" "cname c4 = cname c5" "ctype c4 = ctype c5" by blast
  from c4(1) obtain c3 where c3: "c3 \<in> set (cols df3)"
    and m: "handle_missing_column L (index_len df3) c3 = Some c4"
    by (auto simp: mem_apply_cols names_def)
  from handle_missing_column_Some [OF m] c4(2, 3) have "cname c3 = cname c5 \<and> ctype c3 = ctype c5"
    by simp
  with c3 show ?thesis by blast
qed

lemma same_name_same_column:
  "distinct (map cname cs) \<Longrightarrow> a \<in> set cs \<Longrightarrow> b \<in> set cs \<Longrightarrow> cname a = cname b \<Longrightarrow> a = b"
  by (auto simp: distinct_map inj_on_def)

lemma standardize_column_numeric:
  "standardize_column L c = Some c' \<Longrightarrow> ctype c' = Numeric \<Longrightarrow> \<forall>v\<in>set (cells c'). v = Null"
  by (auto simp: standardize_column_def Let_def list_all_iff split: if_splits)

text \<open>
  Claim C6, amended. Take a text column of the table whose names have been cleaned, in a raw
  table for which the cleaner returns. Type detection makes the column numeric exactly when
  strictly more than half of the rows hold a value that parses as a number once the
  thousands separators and the currency symbol are stripped. When it does, the returned
  frame has a numeric column of that name. When it does not (exactly half is not enough),
  the column stays text or becomes a datetime or boolean column, and the returned frame has
  no numeric column of that name, unless text standardization has left it entirely missing.
\<close>

theorem numeric_threshold:
  assumes wf: "wf_frame raw" and 1: "handle_unnamed_columns raw = Inr df1"
    and c: "c \<in> set (cols (clean_column_names df1))" and t: "ctype c = Object"
    and cl: "clean_dataframe L raw = Inr out"
  shows "\<exists>df3. detect_and_convert_types L (clean_column_names df1) = Inr df3
      \<and> (\<exists>c3\<in>set (cols df3). cname c3 = cname c
            \<and> (ctype c3 = Numeric
                 \<longleftrightarrow> index_len raw < 2 * count_parsed (map (numeric_parse L) (cells c))))
      \<and> (index_len raw < 2 * count_parsed (map (numeric_parse L) (cells c))
           \<longrightarrow> (\<exists>c'\<in>set (cols out). cname c' = cname c \<and> ctype c' = Numeric))
      \<and> (\<not> index_len raw < 2 * count_parsed (map (numeric_parse L) (cells c))
           \<longrightarrow> (\<forall>c'\<in>set (cols out). cname c' = cname c \<and> ctype c' = Numeric
                  \<longrightarrow> (\<forall>v\<in>set (cells c'). v = Null)))"
proof -
  let ?named = "clean_column_names df1"
  let ?n = "index_len raw"
  let ?p = "count_parsed (map (numeric_parse L) (cells c))"
  from cl 1 obtain df3 df4 where
    3: "detect_and_convert_types L ?named = Inr df3"
    and 4: "handle_missing_values L df3 = Inr df4"
    and 6: "standardize_text_columns L (remove_duplicate_rows df4) = Inr out"
    by (auto elim: clean_dataframe_stages)
  let ?df5 = "remove_duplicate_rows df4"
  from named_frame_wf [OF wf 1] have wfn: "wf_frame ?named" and n: "index_len ?named = ?n"
    by simp_all
  from detect_types_wf [OF 3 wfn] have wf3: "wf_frame df3" and d3: "distinct (names df3)"
    and i3: "index_len df3 = ?n"
    using n by auto
  from detect_types_result [OF 3] have
    o3: "cols df3 = map (convert_column L ?n) (cols ?named)" by (simp add: n)
  let ?c3 = "convert_column L ?n c"
  from c o3 have m3: "?c3 \<in> set (cols df3)" by simp
  have nm3: "cname ?c3 = cname c" by simp
  have ty3: "ctype ?c3 = Numeric \<longleftrightarrow> ?n < 2 * ?p"
    by (rule convert_column_numeric_iff [OF t])
  from before_text_has_values [OF d3 wf3 4] have d5: "distinct (names ?df5)" by simp
  have big: "\<exists>c'\<in>set (cols out). cname c' = cname c \<and> ctype c' = Numeric" if gt: "?n < 2 * ?p"
  proof -
    from convert_column_numeric [OF t gt]
    have cs: "cells ?c3 = map num_cell (map (numeric_parse L) (cells c))" by simp
    from wfn c have "length (cells c) = ?n" by (simp add: wf_frame_iff n)
    with null_count_num_cells [of "map (numeric_parse L) (cells c)"] gt
    have k: "2 * null_count (cells ?c3) < index_len df3" by (simp add: cs i3)
    from ty3 gt have "ctype ?c3 = Numeric" by simp
    from stage4_forward_numeric [OF d3 wf3 m3 this k 4] obtain c5 where
      c5: "c5 \<in> set (cols ?df5)" "cname c5 = cname c" "ctype c5 = Numeric" by auto
    from c5(1, 3) have "c5 \<in> set (cols out)"
      unfolding stage6_columns [OF d5 6] by (intro bexI [of _ c5]) simp_all
    with c5(2, 3) show ?thesis by blast
  qed
  have small: "\<forall>v\<in>set (cells c'). v = Null"
    if le: "\<not> ?n < 2 * ?p" and m: "c' \<in> set (cols out)" and nm: "cname c' = cname c"
      and ty: "ctype c' = Numeric" for c'
  proof -
    from m obtain c5 where c5: "c5 \<in> set (cols ?df5)"
      and e: "ctype c5 = Object \<and> standardize_column L c5 = Some c' \<or> ctype c5 \<noteq> Object \<and> c' = c5"
      unfolding stage6_columns [OF d5 6] by blast
    from e have n5: "cname c5 = cname c'" by (auto dest: standardize_column_cells)
    from stage4_backward [OF d3 4 c5] obtain x where x: "x \<in> set (cols df3)"
      "cname x = cname c5" "ctype x = ctype c5" by blast
    from d3 have "distinct (map cname (cols df3))" by (simp add: names_def)
    from same_name_same_column [OF this x(1) m3] x(2) n5 nm have "x = ?c3" by simp
    with x(3) ty3 le have "ctype c5 \<noteq> Numeric" by simp
    with e ty have "standardize_column L c5 = Some c'" by auto
    from standardize_column_numeric [OF this ty] show ?thesis .
  qed
  from 3 m3 nm3 ty3 big small show ?thesis by blast
qed

theorem numeric_threshold_witness:
  "wf_frame mostly_frame
   \<and> handle_unnamed_columns mostly_frame = Inr mostly_frame
   \<and> text_column ''x'' [''5'', ''x'', ''1,000''] \<in> set (cols (clean_column_names mostly_frame))
   \<and> ctype (text_column ''x'' [''5'', ''x'', ''1,000'']) = Object
   \<and> clean_dataframe plain_lib mostly_frame =
       Inr \<lparr> index_len = 3,
             cols = [\<lparr> cname = ''x'', ctype = Numeric,
                      cells = [Num 5, Num (1005 / 2), Num 1000] \<rparr>] \<rparr>
   \<and> index_len mostly_frame
       < 2 * count_parsed (map (numeric_parse plain_lib) (cells (text_column ''x'' [''5'', ''x'', ''1,000''])))
   \<and> (\<exists>c'\<in>set (cols \<lparr> index_len = 3,
             cols = [\<lparr> cname = ''x'', ctype = Numeric,
                      cells = [Num 5, Num (1005 / 2), Num 1000] \<rparr>] \<rparr>).
         cname c' = cname (text_column ''x'' [''5'', ''x'', ''1,000'']) \<and> ctype c' = Numeric)"
proof -
  have a: "wf_frame mostly_frame" by code_simp
  have b: "handle_unnamed_columns mostly_frame = Inr mostly_frame" by code_simp
  have c: "text_column ''x'' [''5'', ''x'', ''1,000''] \<in> set (cols (clean_column_names mostly_frame))"
    by code_simp
  have d: "ctype (text_column ''x'' [''5'', ''x'', ''1,000'']) = Object" by code_simp
  have e: "clean_dataframe plain_lib mostly_frame =
       Inr \<lparr> index_len = 3,
             cols = [\<lparr> cname = ''x'', ctype = Numeric,
                      cells = [Num 5, Num (1005 / 2), Num 1000] \<rparr>] \<rparr>"
    by code_simp
  have f: "index_len mostly_frame
       < 2 * count_parsed (map (numeric_parse plain_lib) (cells (text_column ''x'' [''5'', ''x'', ''1,000''])))"
    by code_simp
  from numeric_threshold [OF a b c d e] f
  have g: "\<exists>c'\<in>set (cols \<lparr> index_len = 3,
             cols = [\<lparr> cname = ''x'', ctype = Numeric,
                      cells = [Num 5, Num (1005 / 2), Num 1000] \<rparr>] \<rparr>).
         cname c' = cname (text_column ''x'' [''5'', ''x'', ''1,000'']) \<and> ctype c' = Numeric"
    by blast
  from a b c d e f g show ?thesis by (intro conjI)
qed

text \<open>
  The claim as worded fails at exactly 50%: of \<open>"5"\<close> and \<open>"x"\<close> one value parses, and the
  column stays text. It also fails below 50%: of \<open>"yes"\<close> and \<open>"no"\<close> no value parses, and the
  column does not remain text, it becomes boolean.
\<close>

theorem numeric_threshold_counterexample:
  "index_len half_frame = 2
   \<and> cols half_frame = [text_column ''x'' [''5'', ''x'']]
   \<and> count_parsed (map (numeric_parse plain_lib) (cells (text_column ''x'' [''5'', ''x'']))) = 1
   \<and> clean_dataframe plain_lib half_frame =
     Inr \<lparr> index_len = 2, cols = [\<lparr> cname = ''x'', ctype = Object, cells = [Txt ''5'', Txt ''x''] \<rparr>] \<rparr>
   \<and> count_parsed (map (numeric_parse plain_lib) (cells (text_column ''x'' [''yes'', ''no'']))) = 0
   \<and> clean_dataframe plain_lib yes_no_frame =
     Inr \<lparr> index_len = 2, cols = [\<lparr> cname = ''x'', ctype = Boolean, cells = [Bool True, Bool False] \<rparr>] \<rparr>"
  by code_simp

end
